theory Spec2Isabelle
  imports Complex_Main "HOL-Library.Word" "HOL-Library.Multiset"
begin

section \<open>JavaScript values and containers used by the code\<close>

text \<open>
  JavaScript numbers reach this code through JSON only (start and end times, sort weights,
  credits), so they are finite; they are carried, compared and tested for zero, and are
  modelled as reals. An optional property is an \<open>option\<close>: \<open>None\<close> is an absent
  (\<open>undefined\<close>) property.
\<close>

type_synonym number = real

text \<open>Truthiness of an optional boolean, of an optional number and of an optional string.\<close>

definition truthy :: "bool option \<Rightarrow> bool" where
  "truthy b = (b = Some True)"

definition truthy_number :: "number option \<Rightarrow> bool" where
  "truthy_number n = (case n of None \<Rightarrow> False | Some x \<Rightarrow> x \<noteq> 0)"

definition truthy_string :: "string option \<Rightarrow> bool" where
  "truthy_string s = (case s of None \<Rightarrow> False | Some x \<Rightarrow> x \<noteq> [])"

text \<open>
  A JavaScript \<open>Map\<close> keeps its entries in insertion order: \<open>set\<close> on a key that is
  present replaces the value where the entry stands, \<open>set\<close> on a new key appends an entry,
  \<open>delete\<close> removes the entry, the constructor inserts the given entries one after the
  other, and \<open>values()\<close> lists the values in entry order.
\<close>

type_synonym ('k, 'v) js_map = "('k \<times> 'v) list"

fun Map_set :: "'k \<Rightarrow> 'v \<Rightarrow> ('k, 'v) js_map \<Rightarrow> ('k, 'v) js_map" where
  "Map_set k v [] = [(k, v)]"
| "Map_set k v ((k', v') # m) =
     (if k' = k then (k', v) # m else (k', v') # Map_set k v m)"

definition Map_delete :: "'k \<Rightarrow> ('k, 'v) js_map \<Rightarrow> ('k, 'v) js_map" where
  "Map_delete k m = filter (\<lambda>e. fst e \<noteq> k) m"

definition Map_new :: "('k \<times> 'v) list \<Rightarrow> ('k, 'v) js_map" where
  "Map_new entries = foldl (\<lambda>m e. Map_set (fst e) (snd e) m) [] entries"

definition Map_values :: "('k, 'v) js_map \<Rightarrow> 'v list" where
  "Map_values m = map snd m"

section \<open>The messages between relay and browser\<close>

subsection \<open>Facts\<close>

text \<open>
  The interface \<open>Fact\<close>. The field names carry the prefix \<open>fact_\<close> because \<open>id\<close> and
  \<open>text\<close> are also fields of \<open>TranscriptSegment\<close>.
\<close>

record Fact =
  fact_id :: string
  fact_text :: string
  fact_group :: string
  fact_groupId :: "string option"
  fact_isDiscarded :: "bool option"
  fact_source :: "string option"
  fact_createdAt :: "string option"
  fact_updatedAt :: "string option"

subsection \<open>Transcript segments\<close>

text \<open>
  The interface \<open>TranscriptSegment\<close>, as the relay sends it in a \<open>transcript\<close> message:
  \<open>JSON.stringify\<close> leaves out a property whose value is \<open>undefined\<close>, so an optional
  property that the provider did not give is absent (\<open>None\<close>) on the client.
\<close>

record TranscriptSegment =
  seg_id :: string
  seg_text :: string
  seg_isFinal :: bool
  seg_speakerId :: "number option"
  seg_channel :: "number option"
  seg_start :: "number option"
  seg_end :: "number option"

subsection \<open>Messages of the relay\<close>

text \<open>
  A parsed message of the relay, by its \<open>type\<close>. \<open>TranscriptMsg None\<close> is a
  \<open>transcript\<close> message without \<open>data\<close>, \<open>FactsMsg None\<close> a \<open>facts\<close> message whose
  \<open>facts\<close> is missing or not an array, \<open>OtherMsg\<close> a message of any other type.
\<close>

datatype server_message =
    SessionStarted string
  | ConfigAccepted
  | ConfigDenied "string option"
  | TranscriptMsg "TranscriptSegment option"
  | FactsMsg "Fact list option"
  | FlushedMsg
  | UsageMsg number
  | ErrorMsg "string option"
  | EndedMsg
  | OtherMsg string

section \<open>The relay: \<open>backend/ambientStream.js\<close>\<close>

subsection \<open>What the relay receives\<close>

text \<open>
  A message of the browser socket is a string or a \<open>Buffer\<close> of bytes. The value that
  \<open>JSON.parse\<close> returns is a JSON value; in an object the last of several equal keys counts.
\<close>

datatype ws_data = StringData string | BufferData "8 word list"

datatype json =
    JNull
  | JBool bool
  | JNumber number
  | JString string
  | JArray "json list"
  | JObject "(string \<times> json) list"

text \<open>
  The property read \<open>msg.type\<close>: it throws a \<open>TypeError\<close> on \<open>null\<close> (the result
  \<open>None\<close>), it is \<open>undefined\<close> on a value that has no such property (\<open>Some None\<close>).
\<close>

definition msg_type :: "json \<Rightarrow> json option option" where
  "msg_type msg =
     (case msg of
        JNull \<Rightarrow> None
      | JObject members \<Rightarrow> Some (map_of (rev members) ''type'')
      | _ \<Rightarrow> Some None)"

text \<open>
  The parts of the JavaScript runtime that the relay calls and that are not code of the
  repository: \<open>JSON.parse(data.toString())\<close>, with \<open>None\<close> for a \<open>SyntaxError\<close>, and
  the conversion of a number to a string in \<open>'-' + number\<close>.
\<close>

record runtime =
  JSON_parse :: "ws_data \<Rightarrow> json option"
  Number_toString :: "number \<Rightarrow> string"

text \<open>
  What the surroundings decide while one event is handled: the \<open>readyState\<close> of the
  browser socket, whether the \<open>k\<close>-th call of \<open>clientWs.send\<close> and the \<open>k\<close>-th call
  of a method of the stream socket throw (and with which message), and the value of the
  \<open>k\<close>-th call of \<open>Math.random\<close>.
\<close>

record env =
  readyState :: nat
  clientSend_throws :: "nat \<Rightarrow> string option"
  stream_throws :: "nat \<Rightarrow> string option"
  Math_random :: "nat \<Rightarrow> number"

text \<open>
  The stream socket of the provider SDK: which of its optional methods exist
  (\<open>typeof streamSocket.sendFlush === 'function'\<close> and so on).
\<close>

record stream_socket =
  has_sendFlush :: bool
  has_sendEnd :: bool
  has_close :: bool

text \<open>A transcript segment and the messages of the provider, by \<open>msg.type\<close>.\<close>

record corti_segment =
  cs_id :: string
  cs_transcript :: string
  cs_final :: bool
  cs_speakerId :: "number option"
  cs_participant_channel :: "number option"
  cs_time_start :: "number option"
  cs_time_end :: "number option"

datatype config_error =
  CONFIG_DENIED | CONFIG_MISSING | CONFIG_NOT_PROVIDED | CONFIG_ALREADY_RECEIVED | CONFIG_TIMEOUT

fun config_error_type :: "config_error \<Rightarrow> string" where
  "config_error_type CONFIG_DENIED = ''CONFIG_DENIED''"
| "config_error_type CONFIG_MISSING = ''CONFIG_MISSING''"
| "config_error_type CONFIG_NOT_PROVIDED = ''CONFIG_NOT_PROVIDED''"
| "config_error_type CONFIG_ALREADY_RECEIVED = ''CONFIG_ALREADY_RECEIVED''"
| "config_error_type CONFIG_TIMEOUT = ''CONFIG_TIMEOUT''"

text \<open>
  The value of one of the properties \<open>msg.fact\<close>, \<open>msg.facts\<close>, \<open>msg.data\<close> of a
  \<open>facts\<close> message: falsy, truthy but not an array, or an array of facts.
\<close>

datatype facts_property = Falsy | NotAnArray | FactsArray "Fact list"

text \<open>
  \<open>CortiTranscript None\<close> is a \<open>transcript\<close> message whose \<open>data\<close> is missing or not
  an array; \<open>CortiError\<close> carries \<open>msg.error\<close> with its \<open>details\<close> and \<open>title\<close>;
  \<open>CortiUnhandled\<close> is a message of any other type.
\<close>

datatype corti_message =
    CortiConfigAccepted
  | CortiConfigError config_error "string option"
  | CortiTranscript "corti_segment list option"
  | CortiFacts facts_property facts_property facts_property
  | CortiFlushed
  | CortiUsage number
  | CortiEnded
  | CortiError "(string option \<times> string option) option"
  | CortiUnhandled string

subsection \<open>The state of a connection and what it does\<close>

text \<open>The variables of the closure of \<open>handleAmbientConnection\<close>.\<close>

record session =
  streamSocket :: "stream_socket option"
  interactionId :: "string option"
  isConfigAccepted :: bool
  isStreamClosed :: bool
  audioQueue :: "ws_data list"
  audioChunkCount :: nat
  isClientConnected :: bool

text \<open>
  What a handler does to the outside, in the order in which it does it: a call of
  \<open>clientWs.send\<close> with the message that is stringified, a call of \<open>clientWs.close\<close>, a
  call of a method of the stream socket, a line of \<open>console.log\<close> or \<open>console.error\<close>.
  A call carries \<open>Some e\<close> when it threw an error with message \<open>e\<close>. A log line is
  recorded by its first argument, with an underscore for every interpolated value and
  without line breaks, leading spaces and the check mark.
\<close>

datatype stream_call = sendAudio ws_data | sendFlush | sendEnd | close_socket

datatype effect =
    ClientSend server_message "string option"
  | ClientClose
  | StreamCall stream_call "string option"
  | Log string
  | LogError string

text \<open>\<open>String.prototype.includes\<close>.\<close>

fun String_includes :: "string \<Rightarrow> string \<Rightarrow> bool" where
  "String_includes [] needle = (needle = [])"
| "String_includes (c # cs) needle = (take (length needle) (c # cs) = needle \<or> String_includes cs needle)"

text \<open>
  \<open>sendToClient\<close>, for the \<open>k\<close>-th call of \<open>clientWs.send\<close> of the event: the boolean
  it returns and what it does.
\<close>

definition sendToClient :: "env \<Rightarrow> session \<Rightarrow> nat \<Rightarrow> server_message \<Rightarrow> bool \<times> effect list" where
  "sendToClient e s k data =
     (if isClientConnected s \<and> readyState e = 1
      then (case clientSend_throws e k of
              None \<Rightarrow> (True, [ClientSend data None])
            | Some err \<Rightarrow> (False, [ClientSend data (Some err), LogError ''Error sending to client:'']))
      else (False, []))"

text \<open>\<open>closeStream\<close>, its call of the stream socket being the \<open>k\<close>-th of the event.\<close>

definition closeStream :: "env \<Rightarrow> nat \<Rightarrow> session \<Rightarrow> session \<times> effect list" where
  "closeStream e k s =
     (case streamSocket s of
        None \<Rightarrow> (s, [])
      | Some sock \<Rightarrow>
          if isStreamClosed s then (s, [])
          else
            (let call = (if has_sendEnd sock then [sendEnd]
                         else if has_close sock then [close_socket] else []);
                 out = concat (map (\<lambda>c.
                         case stream_throws e k of
                           None \<Rightarrow> [StreamCall c None]
                         | Some err \<Rightarrow>
                             StreamCall c (Some err) #
                             (if \<not> String_includes err ''not open''
                              then [LogError ''Error closing stream:''] else [])) call)
             in (s\<lparr>isStreamClosed := True\<rparr>, out)))"

text \<open>
  \<open>sendAudioChunk(socket, data, isReady, queue, onSent)\<close>, its call of \<open>sendAudio\<close>
  being the \<open>k\<close>-th call of the stream socket of the event: the queue after the call,
  whether \<open>onSent\<close> was called, and what the function does.
\<close>

definition sendAudioChunk :: "env \<Rightarrow> nat \<Rightarrow> ws_data \<Rightarrow> bool \<Rightarrow> ws_data list \<Rightarrow> ws_data list \<times> bool \<times> effect list" where
  "sendAudioChunk e k data isReady queue =
     (if \<not> isReady
      then (let queue' = queue @ [data]
            in (queue', False,
                if length queue' mod 10 = 0
                then [Log ''Queued _ audio chunks waiting for CONFIG_ACCEPTED''] else []))
      else (case stream_throws e k of
              None \<Rightarrow> (queue, True, [StreamCall (sendAudio data) None])
            | Some err \<Rightarrow>
                (queue, False, [StreamCall (sendAudio data) (Some err), LogError ''Error sending audio:''])))"

text \<open>
  The call \<open>sendAudioChunk(streamSocket, data, isConfigAccepted, audioQueue,
  () => audioChunkCount++)\<close> of the message handler.
\<close>

definition forward_audio :: "env \<Rightarrow> nat \<Rightarrow> session \<Rightarrow> ws_data \<Rightarrow> session \<times> effect list" where
  "forward_audio e k s data =
     (case sendAudioChunk e k data (isConfigAccepted s) (audioQueue s) of
        (queue', sent, out) \<Rightarrow>
          (s\<lparr>audioQueue := queue',
              audioChunkCount := (if sent then audioChunkCount s + 1 else audioChunkCount s)\<rparr>,
           out))"

subsection \<open>Messages of the browser\<close>

definition isJson :: "ws_data \<Rightarrow> bool" where
  "isJson data =
     (case data of
        StringData str \<Rightarrow> True
      | BufferData bytes \<Rightarrow> (case bytes of [] \<Rightarrow> False | b # bs \<Rightarrow> b = 123))"

text \<open>
  The handler \<open>clientWs.on('message', ...)\<close>. The \<open>catch\<close> of its \<open>try\<close> block treats
  the message as audio; it is reached when \<open>JSON.parse\<close> throws, when \<open>msg.type\<close> throws,
  and when \<open>sendFlush\<close> throws.
\<close>

definition clientWs_on_message :: "runtime \<Rightarrow> env \<Rightarrow> session \<Rightarrow> ws_data \<Rightarrow> session \<times> effect list" where
  "clientWs_on_message rt e s data =
     (case streamSocket s of
        None \<Rightarrow> (s, [Log ''No active stream socket available''])
      | Some sock \<Rightarrow>
          if isStreamClosed s then (s, [Log ''No active stream socket available''])
          else if isJson data then
            (case JSON_parse rt data of
               None \<Rightarrow> forward_audio e 0 s data
             | Some msg \<Rightarrow>
                 (case msg_type msg of
                    None \<Rightarrow> forward_audio e 0 s data
                  | Some ty \<Rightarrow>
                      if ty = Some (JString ''flush'') then
                        (if has_sendFlush sock
                         then (case stream_throws e 0 of
                                 None \<Rightarrow>
                                   (s, [Log ''Client control message:'', StreamCall sendFlush None])
                               | Some err \<Rightarrow>
                                   (case forward_audio e 1 s data of
                                      (s', out) \<Rightarrow>
                                        (s', [Log ''Client control message:'',
                                              StreamCall sendFlush (Some err)] @ out)))
                         else (s, [Log ''Client control message:'']))
                      else if ty = Some (JString ''end'') then
                        (case closeStream e 0 s of
                           (s', out) \<Rightarrow>
                             (s', [Log ''Client control message:'',
                                   Log ''Client requested end, sending to Corti stream...'',
                                   Log ''Total audio chunks sent before end: _''] @ out))
                      else (s, [Log ''Client control message:''])))
          else forward_audio e 0 s data)"

text \<open>The handlers \<open>clientWs.on('close', ...)\<close> and \<open>clientWs.on('error', ...)\<close>.\<close>

definition clientWs_on_close :: "env \<Rightarrow> session \<Rightarrow> session \<times> effect list" where
  "clientWs_on_close e s =
     (case closeStream e 0 (s\<lparr>isClientConnected := False\<rparr>) of
        (s', out) \<Rightarrow>
          (s', [Log ''========================================'',
                Log ''Ambient Client Disconnected'',
                Log ''Interaction ID: _'',
                Log ''Total audio chunks sent: _'',
                Log ''========================================''] @ out))"

definition clientWs_on_error :: "session \<Rightarrow> session \<times> effect list" where
  "clientWs_on_error s = (s\<lparr>isClientConnected := False\<rparr>, [LogError ''Client WebSocket error:''])"

subsection \<open>Messages of the provider\<close>

text \<open>
  The callback \<open>onConfigAccepted\<close> that the stream message handler passes to
  \<open>handleCortiMessage\<close>: every queued chunk is sent in its own \<open>try\<close>, the \<open>k\<close>-th
  chunk by the \<open>k\<close>-th call of the stream socket of the event.
\<close>

fun flush_queue :: "env \<Rightarrow> nat \<Rightarrow> ws_data list \<Rightarrow> effect list" where
  "flush_queue e k [] = []"
| "flush_queue e k (chunk # chunks) =
     (case stream_throws e k of
        None \<Rightarrow> [StreamCall (sendAudio chunk) None]
      | Some err \<Rightarrow>
          [StreamCall (sendAudio chunk) (Some err), LogError ''Error sending queued audio:''])
     @ flush_queue e (Suc k) chunks"

definition onConfigAccepted :: "env \<Rightarrow> session \<Rightarrow> session \<times> effect list" where
  "onConfigAccepted e s =
     (s\<lparr>isConfigAccepted := True, audioQueue := []\<rparr>,
      Log ''Flushing _ queued audio chunks'' # flush_queue e 0 (audioQueue s))"

text \<open>
  The object that the \<open>transcript\<close> case sends for one segment. \<open>rnd\<close> is the value of
  \<open>Math.random()\<close>, which is called only when \<open>segment.time?.start\<close> is falsy.
\<close>

definition client_segment :: "runtime \<Rightarrow> number \<Rightarrow> corti_segment \<Rightarrow> TranscriptSegment" where
  "client_segment rt rnd segment =
     \<lparr>seg_id = cs_id segment @ ''-'' @
         Number_toString rt
           (if truthy_number (cs_time_start segment) then the (cs_time_start segment) else rnd),
      seg_text = cs_transcript segment,
      seg_isFinal = cs_final segment,
      seg_speakerId = cs_speakerId segment,
      seg_channel = cs_participant_channel segment,
      seg_start = cs_time_start segment,
      seg_end = cs_time_end segment\<rparr>"

text \<open>
  \<open>msg.data.forEach\<close> of the \<open>transcript\<close> case: \<open>k\<close> counts the calls of
  \<open>sendToClient\<close>, \<open>r\<close> the calls of \<open>Math.random\<close> made so far in the event.
\<close>

fun relay_segments :: "runtime \<Rightarrow> env \<Rightarrow> session \<Rightarrow> nat \<Rightarrow> nat \<Rightarrow> corti_segment list \<Rightarrow> effect list" where
  "relay_segments rt e s k r [] = []"
| \<open>relay_segments rt e s k r (segment # rest) =
     Log ''Segment: "_" (final: _)'' #
     snd (sendToClient e s k (TranscriptMsg (Some (client_segment rt (Math_random e r) segment))))
     @ relay_segments rt e s (Suc k)
         (if truthy_number (cs_time_start segment) then r else Suc r) rest\<close>

text \<open>\<open>msg.fact || msg.facts || msg.data\<close>.\<close>

definition factsArray_of :: "facts_property \<Rightarrow> facts_property \<Rightarrow> facts_property \<Rightarrow> facts_property" where
  "factsArray_of fact_p facts_p data_p =
     (if fact_p \<noteq> Falsy then fact_p else if facts_p \<noteq> Falsy then facts_p else data_p)"

text \<open>
  \<open>handleCortiMessage(msg, sendToClient, onConfigAccepted)\<close>. The \<open>facts\<close> case copies
  the eight properties of each fact, which are the eight fields of \<open>Fact\<close>.
\<close>

fun handleCortiMessage :: "runtime \<Rightarrow> env \<Rightarrow> session \<Rightarrow> corti_message \<Rightarrow> session \<times> effect list" where
  "handleCortiMessage rt e s CortiConfigAccepted =
     (case onConfigAccepted e s of
        (s', out) \<Rightarrow>
          (s', Log ''Stream configuration accepted'' #
               snd (sendToClient e s 0 ConfigAccepted) @ out))"
| "handleCortiMessage rt e s (CortiConfigError ty reason) =
     (s, LogError ''Configuration error:'' #
         snd (sendToClient e s 0
           (ErrorMsg (Some (config_error_type ty @ '': '' @
              (if truthy_string reason then the reason else ''Unknown reason''))))))"
| "handleCortiMessage rt e s (CortiTranscript data) =
     (s, Log ''TRANSCRIPT DATA:'' #
         (case data of None \<Rightarrow> [] | Some segs \<Rightarrow> relay_segments rt e s 0 0 segs))"
| \<open>handleCortiMessage rt e s (CortiFacts fact_p facts_p data_p) =
     (s, Log ''FACTS DATA:'' #
         (case factsArray_of fact_p facts_p data_p of
            FactsArray fs \<Rightarrow>
              Log ''Received _ facts:'' # map (\<lambda>f. Log ''[_] "_" (discarded: _)'') fs @
              snd (sendToClient e s 0 (FactsMsg (Some fs)))
          | _ \<Rightarrow> []))\<close>
| "handleCortiMessage rt e s CortiFlushed =
     (s, Log ''Audio buffer flushed'' # snd (sendToClient e s 0 FlushedMsg))"
| "handleCortiMessage rt e s (CortiUsage c) =
     (s, Log ''Usage credits:'' # snd (sendToClient e s 0 (UsageMsg c)))"
| "handleCortiMessage rt e s CortiEnded =
     (s, Log ''Stream ended by Corti server'' # snd (sendToClient e s 0 EndedMsg))"
| "handleCortiMessage rt e s (CortiError err) =
     (s, LogError ''Stream error:'' #
         snd (sendToClient e s 0
           (ErrorMsg (Some
              (case err of
                 None \<Rightarrow> ''Stream error''
               | Some (details, title) \<Rightarrow>
                   if truthy_string details then the details
                   else if truthy_string title then the title
                   else ''Stream error'')))))"
| "handleCortiMessage rt e s (CortiUnhandled ty) = (s, [Log ''Unhandled message type:''])"

text \<open>
  The handlers \<open>streamSocket.on('message', ...)\<close>, \<open>on('error', ...)\<close> with
  \<open>error.message\<close> and \<open>JSON.stringify(error)\<close>, and \<open>on('close', ...)\<close>.
\<close>

definition streamSocket_on_message :: "runtime \<Rightarrow> env \<Rightarrow> session \<Rightarrow> corti_message \<Rightarrow> session \<times> effect list" where
  "streamSocket_on_message rt e s message =
     (case handleCortiMessage rt e s message of
        (s', out) \<Rightarrow> (s', Log ''Corti message:'' # out))"

definition streamSocket_on_error :: "env \<Rightarrow> session \<Rightarrow> string option \<Rightarrow> string \<Rightarrow> session \<times> effect list" where
  "streamSocket_on_error e s message stringified =
     (s, LogError ''Stream socket error:'' #
         snd (sendToClient e s 0
           (ErrorMsg (Some (''Stream error: '' @
              (if truthy_string message then the message else stringified))))))"

definition streamSocket_on_close :: "session \<Rightarrow> session \<times> effect list" where
  "streamSocket_on_close s =
     (s\<lparr>isConfigAccepted := False, isStreamClosed := True\<rparr>, [Log ''Stream socket closed''])"

subsection \<open>Setting up a connection, and the events of its life\<close>

text \<open>
  \<open>handleAmbientConnection\<close> up to the registration of the handlers. \<open>create_result\<close> is the
  outcome of \<open>corti.interactions.create\<close> (the message of the error, or the interaction
  id), \<open>connect_result\<close> that of \<open>corti.stream.connect\<close>, which is called only after a
  successful creation. On failure the function returns before it registers a handler, so
  there is no session (\<open>None\<close>) and no later event is handled.
\<close>

definition initial_session :: session where
  "initial_session =
     \<lparr>streamSocket = None, interactionId = None, isConfigAccepted = False,
      isStreamClosed = False, audioQueue = [], audioChunkCount = 0,
      isClientConnected = True\<rparr>"

definition handleAmbientConnection :: "env \<Rightarrow> string + string \<Rightarrow> string + stream_socket \<Rightarrow> session option \<times> effect list" where
  "handleAmbientConnection e create_result connect_result =
     (let s0 = initial_session;
          banner = [Log ''========================================'',
                    Log ''Ambient Documentation Client Connected'',
                    Log ''========================================'',
                    Log ''Creating interaction...'']
      in case create_result of
           Inl err \<Rightarrow>
             (None, banner @ [LogError ''Failed to create interaction:''] @
                snd (sendToClient e s0 0 (ErrorMsg (Some (''Failed to create interaction: '' @ err))))
                @ [ClientClose])
         | Inr i \<Rightarrow>
             (let s1 = s0\<lparr>interactionId := Some i\<rparr>;
                  started = banner @
                    [Log ''BEGIN AMBIENT DOCUMENTATION SESSION'', Log ''Interaction ID: _'',
                     Log ''Started: _''] @
                    snd (sendToClient e s1 0 (SessionStarted i)) @
                    [Log ''Connecting to Corti /stream service...'',
                     Log ''Stream configuration:'']
              in case connect_result of
                   Inl err \<Rightarrow>
                     (None, started @ [LogError ''Failed to connect to /stream:''] @
                        snd (sendToClient e s1 1
                          (ErrorMsg (Some (''Failed to connect to stream: '' @ err))))
                        @ [ClientClose])
                 | Inr sock \<Rightarrow>
                     (Some (s1\<lparr>streamSocket := Some sock\<rparr>),
                      started @ [Log ''Stream socket created''])))"

text \<open>The events that the registered handlers receive, and the handling of a sequence of them.\<close>

datatype event =
    ClientMessage ws_data
  | ClientClosed
  | ClientErrored
  | StreamMessage corti_message
  | StreamErrored "string option" string
  | StreamClosed

fun dispatch :: "runtime \<Rightarrow> env \<Rightarrow> session \<Rightarrow> event \<Rightarrow> session \<times> effect list" where
  "dispatch rt e s (ClientMessage data) = clientWs_on_message rt e s data"
| "dispatch rt e s ClientClosed = clientWs_on_close e s"
| "dispatch rt e s ClientErrored = clientWs_on_error s"
| "dispatch rt e s (StreamMessage message) = streamSocket_on_message rt e s message"
| "dispatch rt e s (StreamErrored message stringified) = streamSocket_on_error e s message stringified"
| "dispatch rt e s StreamClosed = streamSocket_on_close s"

fun run :: "runtime \<Rightarrow> session \<Rightarrow> (env \<times> event) list \<Rightarrow> session \<times> effect list" where
  "run rt s [] = (s, [])"
| "run rt s ((e, ev) # rest) =
     (case dispatch rt e s ev of
        (s1, out1) \<Rightarrow> (case run rt s1 rest of (s2, out2) \<Rightarrow> (s2, out1 @ out2)))"

text \<open>
  The life of one browser connection. \<open>handleAmbientConnection\<close> is suspended in its two
  \<open>await\<close>s while the interaction is created and the stream is connected, and it
  registers the handlers of the browser socket only afterwards (\<open>clientWs.on\<close> in
  steps 3 and 4). An event that the browser socket emits during the set-up finds no
  listener and is lost: the events \<open>during_setup\<close> have no effect. The events
  \<open>afterwards\<close> are handled by the registered handlers, when the set-up has succeeded.
\<close>

definition connection :: "runtime \<Rightarrow> env \<Rightarrow> string + string \<Rightarrow> string + stream_socket \<Rightarrow> event list \<Rightarrow> (env \<times> event) list \<Rightarrow> session option \<times> effect list" where
  "connection rt e create_result connect_result during_setup afterwards =
     (case handleAmbientConnection e create_result connect_result of
        (None, out) \<Rightarrow> (None, out)
      | (Some s, out) \<Rightarrow>
          (case run rt s afterwards of (s', out') \<Rightarrow> (Some s', out @ out')))"

text \<open>What a trace shows of the two sockets.\<close>

fun audio_of :: "effect \<Rightarrow> ws_data list" where
  "audio_of (StreamCall (sendAudio data) err) = [data]"
| "audio_of out = []"

fun delivered_of :: "effect \<Rightarrow> ws_data list" where
  "delivered_of (StreamCall (sendAudio data) None) = [data]"
| "delivered_of out = []"

fun stream_call_of :: "effect \<Rightarrow> stream_call list" where
  "stream_call_of (StreamCall c err) = [c]"
| "stream_call_of out = []"

fun client_call_of :: "effect \<Rightarrow> effect list" where
  "client_call_of (ClientSend m err) = [ClientSend m err]"
| "client_call_of ClientClose = [ClientClose]"
| "client_call_of out = []"

definition sent_audio :: "effect list \<Rightarrow> ws_data list" where
  "sent_audio outs = concat (map audio_of outs)"

definition delivered_audio :: "effect list \<Rightarrow> ws_data list" where
  "delivered_audio outs = concat (map delivered_of outs)"

definition stream_calls :: "effect list \<Rightarrow> stream_call list" where
  "stream_calls outs = concat (map stream_call_of outs)"

definition client_calls :: "effect list \<Rightarrow> effect list" where
  "client_calls outs = concat (map client_call_of outs)"

section \<open>The browser client: \<open>AmbientDocumentation.tsx\<close>\<close>

subsection \<open>Fact reconciliation\<close>

text \<open>
  The body of \<open>(msg.facts as Fact[]).forEach\<close> in the \<open>'facts'\<close> case of
  \<open>handleWebSocketMessage\<close>, on the map \<open>factMap\<close>.
\<close>

definition facts_forEach_body :: "(string, Fact) js_map \<Rightarrow> Fact \<Rightarrow> (string, Fact) js_map" where
  "facts_forEach_body factMap newFact =
     (if \<not> truthy (fact_isDiscarded newFact)
      then Map_set (fact_id newFact) newFact factMap
      else Map_delete (fact_id newFact) factMap)"

text \<open>
  The updater passed to \<open>setFacts\<close>: \<open>prev\<close> is the fact array held in state,
  \<open>msg_facts\<close> the batch of the message, the result the new array.
\<close>

definition setFacts_updater :: "Fact list \<Rightarrow> Fact list \<Rightarrow> Fact list" where
  "setFacts_updater msg_facts prev =
     Map_values (foldl facts_forEach_body (Map_new (map (\<lambda>f. (fact_id f, f)) prev)) msg_facts)"

subsection \<open>The transcript accumulator\<close>

text \<open>
  The object spread \<open>{ ...s, ...data }\<close>: a property that \<open>data\<close> has overrides the one of
  \<open>s\<close>, a property that \<open>data\<close> lacks is taken from \<open>s\<close>.
\<close>

definition spread_own :: "'a option \<Rightarrow> 'a option \<Rightarrow> 'a option" where
  "spread_own old new = (case new of Some v \<Rightarrow> Some v | None \<Rightarrow> old)"

definition spread_segment :: "TranscriptSegment \<Rightarrow> TranscriptSegment \<Rightarrow> TranscriptSegment" where
  "spread_segment s data =
     \<lparr>seg_id = seg_id data,
      seg_text = seg_text data,
      seg_isFinal = seg_isFinal data,
      seg_speakerId = spread_own (seg_speakerId s) (seg_speakerId data),
      seg_channel = spread_own (seg_channel s) (seg_channel data),
      seg_start = spread_own (seg_start s) (seg_start data),
      seg_end = spread_own (seg_end s) (seg_end data)\<rparr>"

text \<open>The updater passed to \<open>setSegments\<close> for a final segment \<open>data\<close>.\<close>

definition setSegments_updater :: "TranscriptSegment \<Rightarrow> TranscriptSegment list \<Rightarrow> TranscriptSegment list" where
  "setSegments_updater data prev =
     (let exists = list_ex (\<lambda>s. seg_id s = seg_id data) prev in
      if exists
      then map (\<lambda>s. if seg_id s = seg_id data then spread_segment s data else s) prev
      else prev @ [data])"

subsection \<open>The client state and \<open>handleWebSocketMessage\<close>\<close>

datatype Status = StatusDisconnected | StatusConnecting | StatusConnected | StatusError

text \<open>
  The React state that \<open>handleWebSocketMessage\<close> writes. The microphone, the timer, the
  audio meter and the socket reference are outside the model. The field \<open>interactionId\<close>
  is named \<open>client_interactionId\<close>, the relay has a variable of the same name.
\<close>

record client_state =
  status :: Status
  isStreaming :: bool
  isEnding :: bool
  segments :: "TranscriptSegment list"
  interimText :: string
  facts :: "Fact list"
  error :: string
  hasRecordedOnce :: bool
  client_interactionId :: "string option"
  credits :: "number option"

text \<open>The initial React state of the component (the \<open>useState\<close> defaults).\<close>

definition initial_client_state :: client_state where
  "initial_client_state =
     \<lparr>status = StatusDisconnected, isStreaming = False, isEnding = False, segments = [],
      interimText = [], facts = [], error = [], hasRecordedOnce = False,
      client_interactionId = None, credits = None\<rparr>"

fun handleWebSocketMessage :: "client_state \<Rightarrow> server_message \<Rightarrow> client_state" where
  "handleWebSocketMessage st (SessionStarted i) = st\<lparr>client_interactionId := Some i\<rparr>"
| "handleWebSocketMessage st ConfigAccepted =
     st\<lparr>status := StatusConnected, isStreaming := True, hasRecordedOnce := True\<rparr>"
| "handleWebSocketMessage st (ConfigDenied reason) =
     st\<lparr>error := ''Configuration denied: '' @
             (if truthy_string reason then the reason else ''Unknown reason''),
        status := StatusError\<rparr>"
| "handleWebSocketMessage st (TranscriptMsg None) = st"
| "handleWebSocketMessage st (TranscriptMsg (Some data)) =
     (if seg_isFinal data
      then st\<lparr>segments := setSegments_updater data (segments st), interimText := []\<rparr>
      else st\<lparr>interimText := seg_text data\<rparr>)"
| "handleWebSocketMessage st (FactsMsg None) = st"
| "handleWebSocketMessage st (FactsMsg (Some fs)) = st\<lparr>facts := setFacts_updater fs (facts st)\<rparr>"
| "handleWebSocketMessage st (UsageMsg c) =
     st\<lparr>credits := Some ((if truthy_number (credits st) then the (credits st) else 0) + c)\<rparr>"
| "handleWebSocketMessage st (ErrorMsg m) =
     st\<lparr>error := (if truthy_string m then the m else ''Stream error occurred'')\<rparr>"
| "handleWebSocketMessage st EndedMsg =
     st\<lparr>isStreaming := False, isEnding := False, status := StatusDisconnected\<rparr>"
| "handleWebSocketMessage st FlushedMsg = st"
| "handleWebSocketMessage st (OtherMsg t) = st"

section \<open>The document view: \<open>DocumentGeneration.tsx\<close>\<close>

record DocumentSection =
  sec_key :: string
  sec_name :: string
  sec_text :: string
  sec_sort :: "number option"

record GeneratedDocument =
  doc_id :: string
  doc_name :: string
  doc_templateKey :: string
  doc_sections :: "DocumentSection list option"
  doc_createdAt :: "string option"
  doc_updatedAt :: "string option"

text \<open>
  \<open>Array.prototype.sort(compareFn)\<close> sorts the array it is called on, in place, and is
  stable: of two elements that compare equal the one that stood first stays first. The
  function below is the array after the call, built by stable insertion from the right.
\<close>

fun Array_sort_insert :: "('a \<Rightarrow> 'a \<Rightarrow> number) \<Rightarrow> 'a \<Rightarrow> 'a list \<Rightarrow> 'a list" where
  "Array_sort_insert compareFn x [] = [x]"
| "Array_sort_insert compareFn x (y # ys) =
     (if compareFn x y \<le> 0 then x # y # ys else y # Array_sort_insert compareFn x ys)"

definition Array_sort :: "('a \<Rightarrow> 'a \<Rightarrow> number) \<Rightarrow> 'a list \<Rightarrow> 'a list" where
  "Array_sort compareFn xs = foldr (Array_sort_insert compareFn) xs []"

text \<open>The weight \<open>a.sort || 0\<close> and the comparator of the formatted view.\<close>

definition sort_or_0 :: "DocumentSection \<Rightarrow> number" where
  "sort_or_0 a = (if truthy_number (sec_sort a) then the (sec_sort a) else 0)"

definition compare_sections :: "DocumentSection \<Rightarrow> DocumentSection \<Rightarrow> number" where
  "compare_sections a b = sort_or_0 a - sort_or_0 b"

text \<open>
  Rendering the formatted view of the document held in state:
  \<open>(document.sections || []).sort(...).map(...)\<close>. The call of \<open>sort\<close> is on the array
  \<open>document.sections\<close> itself when the document has one, so the result is the document
  object as rendering leaves it, and the sections in the order in which they are displayed.
\<close>

definition render_formatted :: "GeneratedDocument \<Rightarrow> GeneratedDocument \<times> DocumentSection list" where
  "render_formatted document =
     (case doc_sections document of
        None \<Rightarrow> (document, Array_sort compare_sections [])
      | Some sections \<Rightarrow>
          (let sorted_sections = Array_sort compare_sections sections
           in (document\<lparr>doc_sections := Some sorted_sections\<rparr>, sorted_sections)))"

section \<open>Auxiliary notions for the statements\<close>

text \<open>A map is keyed by \<open>key\<close> when every entry stands under the key of its value.\<close>

definition keyed :: "('v \<Rightarrow> 'k) \<Rightarrow> ('k, 'v) js_map \<Rightarrow> bool" where
  "keyed key m = (\<forall>e \<in> set m. fst e = key (snd e))"

text \<open>The map built and updated by the updater has distinct keys and is keyed by fact id.\<close>

definition factMap_ok :: "(string, Fact) js_map \<Rightarrow> bool" where
  "factMap_ok m = (distinct (map fst m) \<and> keyed fact_id m)"

text \<open>The last update of a batch that carries the fact id \<open>k\<close>, if there is one.\<close>

fun last_update :: "string \<Rightarrow> Fact list \<Rightarrow> Fact option" where
  "last_update k [] = None"
| "last_update k (f # fs) =
     (case last_update k fs of
        Some g \<Rightarrow> Some g
      | None \<Rightarrow> if fact_id f = k then Some f else None)"

text \<open>
  A batch without re-discovery: no id is updated as non-discarded after an update of the
  same batch discarded it.
\<close>

fun no_readd :: "Fact list \<Rightarrow> bool" where
  "no_readd [] = True"
| "no_readd (f # fs) =
     ((truthy (fact_isDiscarded f) \<longrightarrow>
         (\<forall>g \<in> set fs. fact_id g = fact_id f \<longrightarrow> truthy (fact_isDiscarded g)))
      \<and> no_readd fs)"

text \<open>What one update does to the key order of \<open>factMap\<close>, and the ids a batch discards.\<close>

definition keys_step :: "string list \<Rightarrow> Fact \<Rightarrow> string list" where
  "keys_step ks f =
     (if \<not> truthy (fact_isDiscarded f)
      then (if fact_id f \<in> set ks then ks else ks @ [fact_id f])
      else filter (\<lambda>k. k \<noteq> fact_id f) ks)"

definition discarded_ids :: "Fact list \<Rightarrow> string set" where
  "discarded_ids B = fact_id ` {f \<in> set B. truthy (fact_isDiscarded f)}"

text \<open>Concrete facts, segments and sections for the instances below.\<close>

definition a_fact :: "string \<Rightarrow> string \<Rightarrow> bool option \<Rightarrow> Fact" where
  "a_fact i t d =
     \<lparr>fact_id = i, fact_text = t, fact_group = ''history'', fact_groupId = None,
      fact_isDiscarded = d, fact_source = None, fact_createdAt = None,
      fact_updatedAt = None\<rparr>"

definition a_segment :: "string \<Rightarrow> string \<Rightarrow> bool \<Rightarrow> number option \<Rightarrow> TranscriptSegment" where
  "a_segment i t fin speaker =
     \<lparr>seg_id = i, seg_text = t, seg_isFinal = fin, seg_speakerId = speaker,
      seg_channel = None, seg_start = None, seg_end = None\<rparr>"

definition a_section :: "string \<Rightarrow> number option \<Rightarrow> DocumentSection" where
  "a_section k w = \<lparr>sec_key = k, sec_name = k, sec_text = ''text'', sec_sort = w\<rparr>"

definition a_document :: "DocumentSection list option \<Rightarrow> GeneratedDocument" where
  "a_document secs =
     \<lparr>doc_id = ''doc'', doc_name = ''SOAP Note'', doc_templateKey = ''soap'',
      doc_sections = secs, doc_createdAt = None, doc_updatedAt = None\<rparr>"

text \<open>
  A frame that the message handler treats as audio: it does not look like JSON, or it does
  and \<open>JSON.parse\<close> or the read of \<open>msg.type\<close> throws.
\<close>

definition treated_as_audio :: "runtime \<Rightarrow> ws_data \<Rightarrow> bool" where
  "treated_as_audio rt data =
     (\<not> isJson data \<or>
      (case JSON_parse rt data of None \<Rightarrow> True | Some msg \<Rightarrow> msg_type msg = None))"

text \<open>
  The events of a sequence of frames of the browser, each with the surroundings in which it
  is handled; surroundings in which no call of the stream socket throws; a session whose
  stream socket exists and is not marked closed.
\<close>

definition audio_events :: "(env \<times> ws_data) list \<Rightarrow> (env \<times> event) list" where
  "audio_events frames = map (\<lambda>(e, data). (e, ClientMessage data)) frames"

definition never_throws :: "env \<Rightarrow> bool" where
  "never_throws e = (\<forall>k. stream_throws e k = None)"

definition open_session :: "session \<Rightarrow> bool" where
  "open_session s = (streamSocket s \<noteq> None \<and> \<not> isStreamClosed s)"

text \<open>A runtime, surroundings, a stream socket and a session for the instances below.\<close>

definition a_runtime :: runtime where
  \<open>a_runtime =
     \<lparr>JSON_parse = (\<lambda>data.
        if data = StringData ''{"type":"end"}'' then Some (JObject [(''type'', JString ''end'')])
        else if data = StringData ''{"type":"flush"}'' then Some (JObject [(''type'', JString ''flush'')])
        else None),
      Number_toString = (\<lambda>n. if n = 0 then ''0'' else if n = 1 / 4 then ''0.25''
        else if n = 1 / 2 then ''0.5'' else ''1.5'')\<rparr>\<close>

definition an_env :: env where
  "an_env =
     \<lparr>readyState = 1, clientSend_throws = (\<lambda>k. None), stream_throws = (\<lambda>k. None),
      Math_random = (\<lambda>k. if k = 0 then 1 / 4 else 1 / 2)\<rparr>"

definition a_socket :: stream_socket where
  "a_socket = \<lparr>has_sendFlush = True, has_sendEnd = True, has_close = True\<rparr>"

definition a_session :: session where
  "a_session = initial_session\<lparr>interactionId := Some ''interaction-1'', streamSocket := Some a_socket\<rparr>"


section \<open>Properties of the map model\<close>

lemma Map_set_keys:
  "map fst (Map_set k v m) = (if k \<in> set (map fst m) then map fst m else map fst m @ [k])"
  by (induction m) force+

lemma Map_set_fresh: "k \<notin> set (map fst m) \<Longrightarrow> Map_set k v m = m @ [(k, v)]"
  by (induction m) auto

lemma Map_set_distinct: "distinct (map fst m) \<Longrightarrow> distinct (map fst (Map_set k v m))"
  by (simp add: Map_set_keys)

lemma Map_delete_keys: "map fst (Map_delete k m) = filter (\<lambda>k'. k' \<noteq> k) (map fst m)"
  by (induction m) (auto simp: Map_delete_def)

lemma Map_delete_distinct: "distinct (map fst m) \<Longrightarrow> distinct (map fst (Map_delete k m))"
  by (simp add: Map_delete_keys)

lemma Map_set_entries: "set (Map_set k v m) \<subseteq> insert (k, v) (set m)"
  by (induction m) (auto split: if_splits)

lemma Map_new_fold_distinct:
  "distinct (map fst m) \<Longrightarrow>
   distinct (map fst (foldl (\<lambda>m e. Map_set (fst e) (snd e) m) m es))"
  by (induction es arbitrary: m) (auto simp: Map_set_distinct)

lemma Map_new_distinct: "distinct (map fst (Map_new es))"
  by (simp add: Map_new_def Map_new_fold_distinct)

lemma Map_new_fold_fresh:
  "distinct (map fst (m @ es)) \<Longrightarrow>
   foldl (\<lambda>m e. Map_set (fst e) (snd e) m) m es = m @ es"
proof (induction es arbitrary: m)
  case Nil
  then show ?case by simp
next
  case (Cons e es)
  have fresh: "fst e \<notin> set (map fst m)"
    using Cons.prems by auto
  have step: "Map_set (fst e) (snd e) m = m @ [e]"
    using fresh by (simp add: Map_set_fresh)
  have "distinct (map fst ((m @ [e]) @ es))"
    using Cons.prems by simp
  then have "foldl (\<lambda>m e. Map_set (fst e) (snd e) m) (m @ [e]) es = (m @ [e]) @ es"
    by (rule Cons.IH)
  then show ?case
    using step by simp
qed

lemma Map_new_distinct_entries: "distinct (map fst es) \<Longrightarrow> Map_new es = es"
  using Map_new_fold_fresh [of "[]" es] by (simp add: Map_new_def)

lemma keyed_Map_set: "keyed key m \<Longrightarrow> key v = k \<Longrightarrow> keyed key (Map_set k v m)"
  using Map_set_entries [of k v m] by (auto simp: keyed_def)

lemma keyed_Map_delete: "keyed key m \<Longrightarrow> keyed key (Map_delete k m)"
  by (auto simp: keyed_def Map_delete_def)

lemma keyed_Map_new_fold:
  "keyed key m \<Longrightarrow> keyed key (foldl (\<lambda>m e. Map_set (fst e) (snd e) m) m (map (\<lambda>v. (key v, v)) vs))"
  by (induction vs arbitrary: m) (auto simp: keyed_Map_set)

lemma keyed_Map_new: "keyed key (Map_new (map (\<lambda>v. (key v, v)) vs))"
  using keyed_Map_new_fold [of key "[]" vs] by (simp add: Map_new_def keyed_def)

lemma keyed_entries: "keyed key m \<Longrightarrow> map (\<lambda>v. (key v, v)) (map snd m) = m"
  by (induction m) (auto simp: keyed_def)

lemma keyed_keys: "keyed key m \<Longrightarrow> map key (map snd m) = map fst m"
  by (induction m) (auto simp: keyed_def)

lemma Map_new_values:
  assumes "keyed key m" and "distinct (map fst m)"
  shows "Map_new (map (\<lambda>v. (key v, v)) (Map_values m)) = m"
proof -
  have "map (\<lambda>v. (key v, v)) (Map_values m) = m"
    unfolding Map_values_def using assms(1) by (rule keyed_entries)
  then show ?thesis
    using assms(2) by (simp only: Map_new_distinct_entries)
qed

section \<open>Properties of fact reconciliation\<close>

lemma factMap_ok_new: "factMap_ok (Map_new (map (\<lambda>f. (fact_id f, f)) prev))"
  by (simp add: factMap_ok_def Map_new_distinct keyed_Map_new)

lemma factMap_ok_body: "factMap_ok m \<Longrightarrow> factMap_ok (facts_forEach_body m f)"
  by (simp add: factMap_ok_def facts_forEach_body_def Map_set_distinct Map_delete_distinct
      keyed_Map_set keyed_Map_delete)

lemma factMap_ok_foldl: "factMap_ok m \<Longrightarrow> factMap_ok (foldl facts_forEach_body m fs)"
  by (induction fs arbitrary: m) (auto simp: factMap_ok_body)

lemma factMap_ok_batch:
  "factMap_ok (foldl facts_forEach_body (Map_new (map (\<lambda>f. (fact_id f, f)) prev)) fs)"
  by (simp add: factMap_ok_foldl factMap_ok_new)

lemma factMap_roundtrip:
  "factMap_ok m \<Longrightarrow> Map_new (map (\<lambda>f. (fact_id f, f)) (Map_values m)) = m"
  by (simp add: factMap_ok_def Map_new_values)

lemma setFacts_updater_append:
  "setFacts_updater (B1 @ B2) S = setFacts_updater B2 (setFacts_updater B1 S)"
proof -
  let ?m = "foldl facts_forEach_body (Map_new (map (\<lambda>f. (fact_id f, f)) S)) B1"
  have "Map_new (map (\<lambda>f. (fact_id f, f)) (Map_values ?m)) = ?m"
    by (rule factMap_roundtrip) (rule factMap_ok_batch)
  then show ?thesis
    by (simp add: setFacts_updater_def)
qed

lemma handleWebSocketMessage_facts:
  "facts (handleWebSocketMessage st (FactsMsg (Some B))) = setFacts_updater B (facts st)"
  by simp

text \<open>
  Claim C3. Reconciling batch \<open>B1\<close> into the visible facts \<open>S\<close> and then batch \<open>B2\<close>
  into the result gives the same visible fact array as reconciling the single batch
  \<open>B1 @ B2\<close> into \<open>S\<close>.
\<close>

theorem fact_reconciliation_sequential_batches:
  "setFacts_updater B2 (setFacts_updater B1 S) = setFacts_updater (B1 @ B2) S"
  by (simp add: setFacts_updater_append)

lemma Map_values_set:
  assumes "keyed key m" and "distinct (map fst m)"
  shows "Map_values (Map_set (key v) v m) =
    (if key v \<in> set (map fst m)
     then map (\<lambda>g. if key g = key v then v else g) (Map_values m)
     else Map_values m @ [v])"
  using assms
proof (induction m)
  case Nil
  then show ?case by (simp add: Map_values_def)
next
  case (Cons e m)
  obtain k' v' where e: "e = (k', v')" by (cases e)
  have key': "key v' = k'"
    using Cons.prems(1) e by (simp add: keyed_def)
  have tail_keyed: "keyed key m"
    using Cons.prems(1) by (simp add: keyed_def)
  have tail_distinct: "distinct (map fst m)" and k'_fresh: "k' \<notin> set (map fst m)"
    using Cons.prems(2) e by simp_all
  show ?case
  proof (cases "k' = key v")
    case True
    have "\<forall>g \<in> set (map snd m). key g \<noteq> key v"
      using tail_keyed k'_fresh True by (force simp: keyed_def)
    then have "map (\<lambda>g. if key g = key v then v else g) (map snd m) = map snd m"
      by (induction m) auto
    then show ?thesis
      using True e key' by (simp add: Map_values_def)
  next
    case False
    then show ?thesis
      using Cons.IH [OF tail_keyed tail_distinct] e key' by (simp add: Map_values_def)
  qed
qed

lemma Map_values_delete:
  "keyed key m \<Longrightarrow> Map_values (Map_delete k m) = filter (\<lambda>g. key g \<noteq> k) (Map_values m)"
  by (induction m) (auto simp: keyed_def Map_values_def Map_delete_def)

lemma setFacts_updater_ids:
  "map fact_id (setFacts_updater B S) =
   map fst (foldl facts_forEach_body (Map_new (map (\<lambda>f. (fact_id f, f)) S)) B)"
  using factMap_ok_batch [of S B]
  by (simp only: setFacts_updater_def Map_values_def factMap_ok_def keyed_keys)

lemma setFacts_updater_distinct: "distinct (map fact_id (setFacts_updater B S))"
  using factMap_ok_batch [of S B] by (simp only: setFacts_updater_ids factMap_ok_def)

lemma setFacts_updater_snoc:
  "setFacts_updater (B @ [f]) S =
    (if truthy (fact_isDiscarded f)
     then filter (\<lambda>g. fact_id g \<noteq> fact_id f) (setFacts_updater B S)
     else if fact_id f \<in> set (map fact_id (setFacts_updater B S))
       then map (\<lambda>g. if fact_id g = fact_id f then f else g) (setFacts_updater B S)
       else setFacts_updater B S @ [f])"
proof -
  let ?m = "foldl facts_forEach_body (Map_new (map (\<lambda>f. (fact_id f, f)) S)) B"
  have ok: "keyed fact_id ?m" "distinct (map fst ?m)"
    using factMap_ok_batch [of S B] by (simp_all add: factMap_ok_def)
  have step: "setFacts_updater (B @ [f]) S = Map_values (facts_forEach_body ?m f)"
    by (simp add: setFacts_updater_def)
  have ids: "map fact_id (setFacts_updater B S) = map fst ?m"
    by (rule setFacts_updater_ids)
  show ?thesis
  proof (cases "truthy (fact_isDiscarded f)")
    case True
    then show ?thesis
      using step Map_values_delete [OF ok(1), of "fact_id f"]
      by (simp add: facts_forEach_body_def setFacts_updater_def)
  next
    case False
    then show ?thesis
      using step Map_values_set [OF ok, of f] ids
      by (simp add: facts_forEach_body_def setFacts_updater_def)
  qed
qed

lemma setFacts_updater_Nil:
  assumes "distinct (map fact_id S)"
  shows "setFacts_updater [] S = S"
proof -
  have "distinct (map fst (map (\<lambda>f. (fact_id f, f)) S))"
    using assms by (simp add: comp_def)
  then have "Map_new (map (\<lambda>f. (fact_id f, f)) S) = map (\<lambda>f. (fact_id f, f)) S"
    by (rule Map_new_distinct_entries)
  then show ?thesis
    by (simp add: setFacts_updater_def Map_values_def comp_def)
qed

text \<open>
  Claim C2. A visible array \<open>S\<close> with one entry per id is what the empty batch leaves
  visible. Whatever batch \<open>B\<close> has been applied to whatever array \<open>S\<close>, the visible
  facts \<open>R\<close> hold at most one entry per fact id, and one more update \<open>f\<close> of the batch
  acts on them as follows: a discarded update removes every entry of its id (nothing is
  kept in its place); a non-discarded update whose id is visible replaces the entry where
  it stands, so the order of the ids is kept; a non-discarded update whose id is not
  visible (never seen, or discarded before) is appended with its own attributes.
\<close>

theorem fact_reconciliation_upsert_discard:
  "(distinct (map fact_id S) \<longrightarrow> setFacts_updater [] S = S) \<and>
   (let R = setFacts_updater B S in
     distinct (map fact_id R) \<and>
     setFacts_updater (B @ [f]) S =
      (if truthy (fact_isDiscarded f)
       then filter (\<lambda>g. fact_id g \<noteq> fact_id f) R
       else if fact_id f \<in> set (map fact_id R)
         then map (\<lambda>g. if fact_id g = fact_id f then f else g) R
         else R @ [f]))"
  unfolding Let_def
  using setFacts_updater_Nil [of S] setFacts_updater_distinct [of B S]
    setFacts_updater_snoc [of B f S]
  by blast

text \<open>
  The facts 7 and 8 are visible. The update that discards 7 leaves 8; the update that then
  brings 7 back with a new text shows it behind 8; the update that changes the text of 8
  while 7 and 8 are visible leaves 8 in the second place.
\<close>

theorem fact_reconciliation_upsert_discard_witness:
  "distinct (map fact_id [a_fact ''7'' ''cough'' None, a_fact ''8'' ''fever'' None]) \<and>
   setFacts_updater [] [a_fact ''7'' ''cough'' None, a_fact ''8'' ''fever'' None]
     = [a_fact ''7'' ''cough'' None, a_fact ''8'' ''fever'' None] \<and>
   setFacts_updater [a_fact ''7'' ''cough'' (Some True)]
       [a_fact ''7'' ''cough'' None, a_fact ''8'' ''fever'' None]
     = [a_fact ''8'' ''fever'' None] \<and>
   setFacts_updater ([a_fact ''7'' ''cough'' (Some True)] @ [a_fact ''7'' ''dry cough'' None])
       [a_fact ''7'' ''cough'' None, a_fact ''8'' ''fever'' None]
     = [a_fact ''8'' ''fever'' None, a_fact ''7'' ''dry cough'' None] \<and>
   setFacts_updater ([] @ [a_fact ''8'' ''high fever'' (Some False)])
       [a_fact ''7'' ''cough'' None, a_fact ''8'' ''fever'' None]
     = [a_fact ''7'' ''cough'' None, a_fact ''8'' ''high fever'' (Some False)]"
proof -
  let ?S = "[a_fact ''7'' ''cough'' None, a_fact ''8'' ''fever'' None]"
  have d: "distinct (map fact_id ?S)"
    by (simp add: a_fact_def)
  have anchor: "setFacts_updater [] ?S = ?S"
    using fact_reconciliation_upsert_discard [of ?S "[]" "a_fact ''7'' ''cough'' (Some True)"] d
    by blast
  have discard: "setFacts_updater ([] @ [a_fact ''7'' ''cough'' (Some True)]) ?S
      = [a_fact ''8'' ''fever'' None]"
    using fact_reconciliation_upsert_discard [of ?S "[]" "a_fact ''7'' ''cough'' (Some True)"]
    by (simp add: anchor Let_def) (simp add: a_fact_def truthy_def)
  have readd: "setFacts_updater ([a_fact ''7'' ''cough'' (Some True)] @ [a_fact ''7'' ''dry cough'' None]) ?S
      = [a_fact ''8'' ''fever'' None, a_fact ''7'' ''dry cough'' None]"
    using fact_reconciliation_upsert_discard
      [of ?S "[a_fact ''7'' ''cough'' (Some True)]" "a_fact ''7'' ''dry cough'' None"] discard
    by (simp add: Let_def) (simp add: a_fact_def truthy_def)
  have replace: "setFacts_updater ([] @ [a_fact ''8'' ''high fever'' (Some False)]) ?S
      = [a_fact ''7'' ''cough'' None, a_fact ''8'' ''high fever'' (Some False)]"
    using fact_reconciliation_upsert_discard [of ?S "[]" "a_fact ''8'' ''high fever'' (Some False)"]
    by (simp add: anchor Let_def) (simp add: a_fact_def truthy_def)
  show ?thesis
    using d anchor discard readd replace by simp
qed

lemma keys_body: "map fst (facts_forEach_body m f) = keys_step (map fst m) f"
  by (simp add: facts_forEach_body_def keys_step_def Map_set_keys Map_delete_keys)

lemma keys_foldl: "map fst (foldl facts_forEach_body m B) = foldl keys_step (map fst m) B"
  by (induction B arbitrary: m) (simp_all add: keys_body)

lemma map_of_Map_set: "map_of (Map_set k v m) = (map_of m)(k \<mapsto> v)"
  by (induction m) (auto simp: fun_eq_iff)

lemma map_of_Map_delete: "map_of (Map_delete k m) = (map_of m)(k := None)"
  by (induction m) (auto simp: fun_eq_iff Map_delete_def)

lemma last_update_Some: "last_update k B = Some g \<Longrightarrow> g \<in> set B \<and> fact_id g = k"
  by (induction B) (auto split: option.splits if_splits)

lemma last_update_None: "last_update k B = None \<Longrightarrow> f \<in> set B \<Longrightarrow> fact_id f \<noteq> k"
  by (induction B) (auto split: option.splits if_splits)

lemma map_of_foldl:
  "map_of (foldl facts_forEach_body m B) k =
     (case last_update k B of
        None \<Rightarrow> map_of m k
      | Some g \<Rightarrow> if truthy (fact_isDiscarded g) then None else Some g)"
proof (induction B arbitrary: m)
  case Nil
  then show ?case by simp
next
  case (Cons f fs)
  have head: "map_of (facts_forEach_body m f) k =
      (if fact_id f = k then (if truthy (fact_isDiscarded f) then None else Some f)
       else map_of m k)"
    by (simp add: facts_forEach_body_def map_of_Map_set map_of_Map_delete)
  have "map_of (foldl facts_forEach_body m (f # fs)) k =
      (case last_update k fs of
         None \<Rightarrow> map_of (facts_forEach_body m f) k
       | Some g \<Rightarrow> if truthy (fact_isDiscarded g) then None else Some g)"
    by (simp add: Cons.IH)
  then show ?case
    by (simp add: head split: option.splits)
qed

lemma map_of_foldl_idem:
  "map_of (foldl facts_forEach_body (foldl facts_forEach_body m B) B) =
   map_of (foldl facts_forEach_body m B)"
  by (rule ext) (simp add: map_of_foldl split: option.splits)

lemma mem_keys_foldl:
  "k \<in> set (foldl keys_step ks B) \<longleftrightarrow>
     (case last_update k B of
        None \<Rightarrow> k \<in> set ks
      | Some g \<Rightarrow> \<not> truthy (fact_isDiscarded g))"
proof (induction B arbitrary: ks)
  case Nil
  then show ?case by simp
next
  case (Cons f fs)
  have head: "k \<in> set (keys_step ks f) \<longleftrightarrow>
      (if fact_id f = k then \<not> truthy (fact_isDiscarded f) else k \<in> set ks)"
    by (auto simp: keys_step_def)
  have "k \<in> set (foldl keys_step ks (f # fs)) \<longleftrightarrow>
      (case last_update k fs of
         None \<Rightarrow> k \<in> set (keys_step ks f)
       | Some g \<Rightarrow> \<not> truthy (fact_isDiscarded g))"
    by (simp add: Cons.IH)
  then show ?case
    by (simp add: head split: option.splits)
qed

lemma no_readd_last:
  "no_readd B \<Longrightarrow> f \<in> set B \<Longrightarrow> truthy (fact_isDiscarded f) \<Longrightarrow>
   \<exists>g. last_update (fact_id f) B = Some g \<and> truthy (fact_isDiscarded g)"
proof (induction B)
  case Nil
  then show ?case by simp
next
  case (Cons x xs)
  show ?case
  proof (cases "last_update (fact_id f) xs")
    case None
    then have "f \<notin> set xs"
      using last_update_None by blast
    then have "f = x"
      using Cons.prems(2) by simp
    then show ?thesis
      using None Cons.prems(3) by simp
  next
    case (Some g)
    then have g: "g \<in> set xs" "fact_id g = fact_id f"
      using last_update_Some by blast+
    show ?thesis
    proof (cases "f \<in> set xs")
      case True
      obtain g' where "last_update (fact_id f) xs = Some g'" "truthy (fact_isDiscarded g')"
        using Cons.IH [OF _ True Cons.prems(3)] Cons.prems(1) by auto
      then show ?thesis
        by simp
    next
      case False
      then have "f = x" using Cons.prems(2) by simp
      then have "truthy (fact_isDiscarded g)"
        using Cons.prems(1,3) g by simp
      then show ?thesis
        using Some by simp
    qed
  qed
qed

lemma filter_keys_foldl:
  assumes "\<forall>f \<in> set B. truthy (fact_isDiscarded f) \<longrightarrow> fact_id f \<in> D"
    and "\<forall>f \<in> set B. \<not> truthy (fact_isDiscarded f) \<longrightarrow> fact_id f \<in> D \<or> fact_id f \<in> set ks"
  shows "filter (\<lambda>k. k \<notin> D) (foldl keys_step ks B) = filter (\<lambda>k. k \<notin> D) ks"
  using assms
proof (induction B arbitrary: ks)
  case Nil
  then show ?case by simp
next
  case (Cons f fs)
  have head: "filter (\<lambda>k. k \<notin> D) (keys_step ks f) = filter (\<lambda>k. k \<notin> D) ks"
    using Cons.prems by (auto simp: keys_step_def intro: filter_cong)
  have mono: "\<And>k. k \<in> set ks \<Longrightarrow> k \<notin> D \<Longrightarrow> k \<in> set (keys_step ks f)"
    using Cons.prems(1) by (auto simp: keys_step_def)
  have "filter (\<lambda>k. k \<notin> D) (foldl keys_step (keys_step ks f) fs) =
        filter (\<lambda>k. k \<notin> D) (keys_step ks f)"
  proof (rule Cons.IH)
    show "\<forall>f \<in> set fs. truthy (fact_isDiscarded f) \<longrightarrow> fact_id f \<in> D"
      using Cons.prems(1) by simp
    show "\<forall>g \<in> set fs. \<not> truthy (fact_isDiscarded g) \<longrightarrow>
            fact_id g \<in> D \<or> fact_id g \<in> set (keys_step ks f)"
      using Cons.prems(2) mono by auto
  qed
  then show ?case
    using head by simp
qed

lemma no_readd_absent:
  assumes "no_readd B" and "k \<in> discarded_ids B"
  shows "k \<notin> set (foldl keys_step ks B)"
proof -
  obtain f where f: "f \<in> set B" "truthy (fact_isDiscarded f)" "fact_id f = k"
    using assms(2) by (auto simp: discarded_ids_def)
  obtain g where "last_update k B = Some g" "truthy (fact_isDiscarded g)"
    using no_readd_last [OF assms(1) f(1,2)] f(3) by auto
  then show ?thesis
    by (simp add: mem_keys_foldl)
qed

lemma kept_present:
  assumes "f \<in> set B" and "\<not> truthy (fact_isDiscarded f)" and "fact_id f \<notin> discarded_ids B"
  shows "fact_id f \<in> set (foldl keys_step ks B)"
proof (cases "last_update (fact_id f) B")
  case None
  then show ?thesis
    using assms(1) last_update_None by blast
next
  case (Some g)
  then have "g \<in> set B" "fact_id g = fact_id f"
    using last_update_Some by blast+
  then have "truthy (fact_isDiscarded g) \<Longrightarrow> fact_id f \<in> discarded_ids B"
    unfolding discarded_ids_def by (metis (mono_tags, lifting) imageI mem_Collect_eq)
  then have "\<not> truthy (fact_isDiscarded g)"
    using assms(3) by blast
  then show ?thesis
    using Some by (simp add: mem_keys_foldl)
qed

lemma keys_foldl_idem:
  assumes "no_readd B"
  shows "foldl keys_step (foldl keys_step ks B) B = foldl keys_step ks B"
proof -
  let ?D = "discarded_ids B"
  let ?ks' = "foldl keys_step ks B"
  let ?ks'' = "foldl keys_step ?ks' B"
  have clean: "\<And>ks. filter (\<lambda>k. k \<notin> ?D) (foldl keys_step ks B) = foldl keys_step ks B"
    using no_readd_absent [OF assms] by (simp add: filter_id_conv) blast
  have "filter (\<lambda>k. k \<notin> ?D) ?ks'' = filter (\<lambda>k. k \<notin> ?D) ?ks'"
  proof (rule filter_keys_foldl)
    show "\<forall>f \<in> set B. truthy (fact_isDiscarded f) \<longrightarrow> fact_id f \<in> ?D"
      by (auto simp: discarded_ids_def)
    show "\<forall>f \<in> set B. \<not> truthy (fact_isDiscarded f) \<longrightarrow> fact_id f \<in> ?D \<or> fact_id f \<in> set ?ks'"
      using kept_present by blast
  qed
  then show ?thesis
    by (simp only: clean)
qed

lemma js_map_eqI:
  assumes "distinct (map fst m)" and "map fst m = map fst m'" and "map_of m = map_of m'"
  shows "m = m'"
  using assms
proof (induction m arbitrary: m')
  case Nil
  then show ?case by simp
next
  case (Cons e ms)
  obtain e' ms' where m': "m' = e' # ms'"
    using Cons.prems(2) by (cases m') auto
  have keys: "fst e' = fst e" "map fst ms = map fst ms'"
    using Cons.prems(2) m' by simp_all
  have fresh: "map_of ms (fst e) = None" "map_of ms' (fst e) = None"
    using Cons.prems(1) keys by (simp_all add: map_of_eq_None_iff del: image_set flip: set_map)
  have eq: "map_of (e # ms) k = map_of (e' # ms') k" for k
    using Cons.prems(3) unfolding m' by (rule fun_cong)
  have "snd e = snd e'"
    using eq [of "fst e"]
    using keys(1) by (cases e, cases e') simp
  then have heads: "e = e'"
    using keys(1) by (simp add: prod_eq_iff)
  have "map_of ms k = map_of ms' k" for k
  proof (cases "k = fst e")
    case True
    then show ?thesis using fresh by simp
  next
    case False
    show ?thesis
      using eq [of k] False keys(1) by (cases e, cases e') simp
  qed
  then have "map_of ms = map_of ms'"
    by (rule ext)
  then have "ms = ms'"
    using Cons.IH [of ms'] Cons.prems(1) keys(2) by simp
  then show ?case
    using heads m' by simp
qed

lemma foldl_body_idem:
  assumes "factMap_ok m" and "no_readd B"
  shows "foldl facts_forEach_body (foldl facts_forEach_body m B) B = foldl facts_forEach_body m B"
proof (rule js_map_eqI)
  let ?m' = "foldl facts_forEach_body m B"
  have ok': "factMap_ok ?m'"
    using assms(1) by (rule factMap_ok_foldl)
  show "distinct (map fst (foldl facts_forEach_body ?m' B))"
    using factMap_ok_foldl [OF ok'] by (simp add: factMap_ok_def)
  show "map fst (foldl facts_forEach_body ?m' B) = map fst ?m'"
    by (simp only: keys_foldl keys_foldl_idem [OF assms(2)])
  show "map_of (foldl facts_forEach_body ?m' B) = map_of ?m'"
    by (rule map_of_foldl_idem)
qed

lemma setFacts_updater_twice:
  "setFacts_updater B (setFacts_updater B S) =
   Map_values (foldl facts_forEach_body
     (foldl facts_forEach_body (Map_new (map (\<lambda>f. (fact_id f, f)) S)) B) B)"
  using setFacts_updater_append [of B B S] by (simp add: setFacts_updater_def)

lemma setFacts_updater_idem_list:
  assumes "no_readd B"
  shows "setFacts_updater B (setFacts_updater B S) = setFacts_updater B S"
proof -
  let ?m0 = "Map_new (map (\<lambda>f. (fact_id f, f)) S)"
  have "foldl facts_forEach_body (foldl facts_forEach_body ?m0 B) B = foldl facts_forEach_body ?m0 B"
    using factMap_ok_new assms by (rule foldl_body_idem)
  then show ?thesis
    by (subst setFacts_updater_twice) (simp add: setFacts_updater_def)
qed

lemma Map_values_set_eq:
  "distinct (map fst m) \<Longrightarrow> set (Map_values m) = ran (map_of m)"
  by (simp add: Map_values_def ran_distinct)

lemma setFacts_updater_idem_set:
  "set (setFacts_updater B (setFacts_updater B S)) = set (setFacts_updater B S)"
proof -
  let ?m0 = "Map_new (map (\<lambda>f. (fact_id f, f)) S)"
  let ?m' = "foldl facts_forEach_body ?m0 B"
  have ok': "factMap_ok ?m'" by (rule factMap_ok_batch)
  have d1: "distinct (map fst ?m')" using ok' by (simp add: factMap_ok_def)
  have d2: "distinct (map fst (foldl facts_forEach_body ?m' B))"
    using factMap_ok_foldl [OF ok'] by (simp add: factMap_ok_def)
  have "set (Map_values (foldl facts_forEach_body ?m' B)) = set (Map_values ?m')"
    by (simp only: Map_values_set_eq [OF d1] Map_values_set_eq [OF d2] map_of_foldl_idem)
  then show ?thesis
    by (subst setFacts_updater_twice) (simp add: setFacts_updater_def)
qed

text \<open>
  Claim C7, as the code has it. Applying a batch \<open>B\<close> a second time leaves the same
  facts visible (the same entries, each id once); the array is also in the same order
  whenever \<open>B\<close> does not re-add an id that it discarded earlier in the same batch.
\<close>

theorem fact_reconciliation_idempotent_up_to_order:
  "set (setFacts_updater B (setFacts_updater B S)) = set (setFacts_updater B S) \<and>
   (no_readd B \<longrightarrow> setFacts_updater B (setFacts_updater B S) = setFacts_updater B S)"
  using setFacts_updater_idem_set [of B S] setFacts_updater_idem_list [of B S] by blast

text \<open>
  The batch "add 7, discard 8" re-adds nothing; applied twice to the facts 8 and 9 it
  leaves 9 and then 7, as it does applied once.
\<close>

theorem fact_reconciliation_idempotent_up_to_order_witness:
  "no_readd [a_fact ''7'' ''cough'' None, a_fact ''8'' ''fever'' (Some True)] \<and>
   setFacts_updater [a_fact ''7'' ''cough'' None, a_fact ''8'' ''fever'' (Some True)]
     (setFacts_updater [a_fact ''7'' ''cough'' None, a_fact ''8'' ''fever'' (Some True)]
        [a_fact ''8'' ''fever'' None, a_fact ''9'' ''rash'' None])
   = [a_fact ''9'' ''rash'' None, a_fact ''7'' ''cough'' None]"
proof -
  let ?B = "[a_fact ''7'' ''cough'' None, a_fact ''8'' ''fever'' (Some True)]"
  let ?S = "[a_fact ''8'' ''fever'' None, a_fact ''9'' ''rash'' None]"
  have h: "no_readd ?B"
    by (simp add: a_fact_def truthy_def)
  have once: "setFacts_updater ?B ?S = [a_fact ''9'' ''rash'' None, a_fact ''7'' ''cough'' None]"
    by (simp add: setFacts_updater_def Map_new_def Map_values_def facts_forEach_body_def
        Map_delete_def truthy_def a_fact_def)
  show ?thesis
    using fact_reconciliation_idempotent_up_to_order [of ?B ?S] h once by simp
qed

text \<open>
  Claim C7 as stated fails for the order. The batch "discard 7, add 7, add 8" applied to
  no facts shows 7 before 8; applied again it shows 8 before 7: the second application
  discards 7 and re-adds it behind 8.
\<close>

theorem fact_reconciliation_not_idempotent_in_order:
  "setFacts_updater
     [a_fact ''7'' ''cough'' (Some True), a_fact ''7'' ''cough'' None, a_fact ''8'' ''fever'' None]
     (setFacts_updater
        [a_fact ''7'' ''cough'' (Some True), a_fact ''7'' ''cough'' None, a_fact ''8'' ''fever'' None]
        [])
   \<noteq> setFacts_updater
     [a_fact ''7'' ''cough'' (Some True), a_fact ''7'' ''cough'' None, a_fact ''8'' ''fever'' None]
     []"
  by (simp add: setFacts_updater_def Map_new_def Map_values_def facts_forEach_body_def
      Map_delete_def truthy_def a_fact_def)

section \<open>Properties of the transcript accumulator\<close>

lemma setSegments_updater_eq:
  "setSegments_updater data prev =
     (if seg_id data \<in> set (map seg_id prev)
      then map (\<lambda>s. if seg_id s = seg_id data then spread_segment s data else s) prev
      else prev @ [data])"
proof -
  have "list_ex (\<lambda>s. seg_id s = seg_id data) prev \<longleftrightarrow> seg_id data \<in> set (map seg_id prev)"
    by (induction prev) auto
  then show ?thesis
    by (simp add: setSegments_updater_def)
qed

text \<open>
  Claim C6, as the code has it. A final segment always resets the interim text to the
  empty string and is upserted by id: when its id is not in the finalized sequence it is
  appended; when it is, the segment of that id is merged where it stands by the object
  spread, which takes id, text and finality from the new segment and each optional
  attribute from the new segment when it carries one and from the old one otherwise.
\<close>

theorem final_segment_merges_and_clears_interim:
  assumes "seg_isFinal data"
  shows "interimText (handleWebSocketMessage st (TranscriptMsg (Some data))) = [] \<and>
    segments (handleWebSocketMessage st (TranscriptMsg (Some data))) =
      (if seg_id data \<in> set (map seg_id (segments st))
       then map (\<lambda>s. if seg_id s = seg_id data then spread_segment s data else s) (segments st)
       else segments st @ [data]) \<and>
    seg_id (spread_segment s data) = seg_id data \<and>
    seg_text (spread_segment s data) = seg_text data \<and>
    seg_isFinal (spread_segment s data) \<and>
    seg_speakerId (spread_segment s data) =
      (case seg_speakerId data of Some v \<Rightarrow> Some v | None \<Rightarrow> seg_speakerId s) \<and>
    seg_channel (spread_segment s data) =
      (case seg_channel data of Some v \<Rightarrow> Some v | None \<Rightarrow> seg_channel s) \<and>
    seg_start (spread_segment s data) =
      (case seg_start data of Some v \<Rightarrow> Some v | None \<Rightarrow> seg_start s) \<and>
    seg_end (spread_segment s data) =
      (case seg_end data of Some v \<Rightarrow> Some v | None \<Rightarrow> seg_end s)"
  using assms by (simp add: setSegments_updater_eq spread_segment_def spread_own_def)

text \<open>
  The scenario of the claim: an interim segment "foo", then the final segment "bar" with an
  id that is new.
\<close>

theorem final_segment_merges_and_clears_interim_witness:
  "seg_isFinal (a_segment ''a'' ''bar'' True None) \<and>
   interimText (handleWebSocketMessage initial_client_state
      (TranscriptMsg (Some (a_segment ''i'' ''foo'' False None)))) = ''foo'' \<and>
   interimText (handleWebSocketMessage
      (handleWebSocketMessage initial_client_state
         (TranscriptMsg (Some (a_segment ''i'' ''foo'' False None))))
      (TranscriptMsg (Some (a_segment ''a'' ''bar'' True None)))) = [] \<and>
   segments (handleWebSocketMessage
      (handleWebSocketMessage initial_client_state
         (TranscriptMsg (Some (a_segment ''i'' ''foo'' False None))))
      (TranscriptMsg (Some (a_segment ''a'' ''bar'' True None))))
    = [a_segment ''a'' ''bar'' True None] \<and>
   seg_speakerId (spread_segment (a_segment ''a'' ''foo'' True (Some 1))
      (a_segment ''a'' ''bar'' True None)) = Some 1"
proof -
  let ?st = "handleWebSocketMessage initial_client_state
      (TranscriptMsg (Some (a_segment ''i'' ''foo'' False None)))"
  have fin: "seg_isFinal (a_segment ''a'' ''bar'' True None)"
    by (simp add: a_segment_def)
  have st: "interimText ?st = ''foo''" "segments ?st = []"
    by (simp_all add: a_segment_def initial_client_state_def)
  have old: "seg_speakerId (a_segment ''a'' ''foo'' True (Some 1)) = Some 1"
      "seg_speakerId (a_segment ''a'' ''bar'' True None) = None"
    by (simp_all add: a_segment_def)
  show ?thesis
    using final_segment_merges_and_clears_interim
      [OF fin, of ?st "a_segment ''a'' ''foo'' True (Some 1)"] fin st old
    by simp
qed

text \<open>
  Claim C6 as stated fails for the replacement. A final segment without a speaker id, for
  an id whose finalized segment has speaker 1: the finalized segment keeps speaker 1, so it
  is not the new segment. A final segment with speaker 2 replaces the speaker.
\<close>

theorem final_segment_not_replaced_whole:
  "segments (handleWebSocketMessage
      (initial_client_state\<lparr>segments := [a_segment ''a'' ''foo'' True (Some 1)]\<rparr>)
      (TranscriptMsg (Some (a_segment ''a'' ''bar'' True None))))
    = [a_segment ''a'' ''bar'' True (Some 1)] \<and>
   segments (handleWebSocketMessage
      (initial_client_state\<lparr>segments := [a_segment ''a'' ''foo'' True (Some 1)]\<rparr>)
      (TranscriptMsg (Some (a_segment ''a'' ''bar'' True None))))
    \<noteq> [a_segment ''a'' ''bar'' True None] \<and>
   segments (handleWebSocketMessage
      (initial_client_state\<lparr>segments := [a_segment ''a'' ''foo'' True (Some 1)]\<rparr>)
      (TranscriptMsg (Some (a_segment ''a'' ''bar'' True (Some 2)))))
    = [a_segment ''a'' ''bar'' True (Some 2)]"
  by (simp add: setSegments_updater_def spread_segment_def spread_own_def a_segment_def
      initial_client_state_def)

section \<open>Properties of the document view\<close>

lemma Array_sort_insert_key:
  "Array_sort_insert compare_sections x ys = insort_key sort_or_0 x ys"
  by (induction ys) (simp_all add: compare_sections_def)

lemma Array_sort_key: "Array_sort compare_sections xs = sort_key sort_or_0 xs"
  by (induction xs) (simp_all add: Array_sort_def sort_key_def Array_sort_insert_key)

lemma render_formatted_view:
  "snd (render_formatted document) =
     sort_key sort_or_0 (case doc_sections document of None \<Rightarrow> [] | Some secs \<Rightarrow> secs)"
  by (simp add: render_formatted_def Array_sort_key Let_def split: option.splits)

lemma render_formatted_ascending:
  "sorted (map sort_or_0 (snd (render_formatted document)))"
  by (simp add: render_formatted_view)

lemma render_formatted_stable:
  "filter (\<lambda>s. sort_or_0 s = w) (snd (render_formatted document)) =
   filter (\<lambda>s. sort_or_0 s = w) (case doc_sections document of None \<Rightarrow> [] | Some secs \<Rightarrow> secs)"
  by (simp add: render_formatted_view sort_key_stable)

lemma render_formatted_same_sections:
  "mset (snd (render_formatted document)) =
   mset (case doc_sections document of None \<Rightarrow> [] | Some secs \<Rightarrow> secs)"
  by (simp add: render_formatted_view)

lemma render_formatted_state:
  "doc_sections (fst (render_formatted document)) =
     map_option (sort_key sort_or_0) (doc_sections document)"
  by (simp add: render_formatted_def Array_sort_key Let_def split: option.splits)

text \<open>
  Claim C9. The formatted view shows the sections in ascending order of their weight, ties
  in their original order (the three lemmas above); the claim adds that rendering leaves the
  sections held in state unchanged. For the document with the sections "plan" (weight 2)
  and "subjective" (weight 1), in this order, the sections held in state after rendering are
  "subjective", "plan": the in-place \<open>sort\<close> has reordered the array of the document.
\<close>

theorem render_formatted_reorders_state:
  "doc_sections (fst (render_formatted
      (a_document (Some [a_section ''plan'' (Some 2), a_section ''subjective'' (Some 1)]))))
    = Some [a_section ''subjective'' (Some 1), a_section ''plan'' (Some 2)] \<and>
   doc_sections (fst (render_formatted
      (a_document (Some [a_section ''plan'' (Some 2), a_section ''subjective'' (Some 1)]))))
    \<noteq> doc_sections
      (a_document (Some [a_section ''plan'' (Some 2), a_section ''subjective'' (Some 1)]))"
  by (simp add: render_formatted_def Array_sort_def compare_sections_def sort_or_0_def
      truthy_number_def a_document_def a_section_def Let_def)

section \<open>Properties of the relay\<close>

lemma run_append:
  "run rt s (evs @ evs') =
     (case run rt s evs of (s1, out1) \<Rightarrow> (case run rt s1 evs' of (s2, out2) \<Rightarrow> (s2, out1 @ out2)))"
  by (induction evs arbitrary: s) (auto split: prod.splits)

lemma sent_audio_simps [simp]:
  "sent_audio [] = []" "sent_audio (x # xs) = audio_of x @ sent_audio xs"
  by (simp_all add: sent_audio_def)

lemma delivered_audio_simps [simp]:
  "delivered_audio [] = []" "delivered_audio (x # xs) = delivered_of x @ delivered_audio xs"
  by (simp_all add: delivered_audio_def)

lemma sent_audio_append [simp]: "sent_audio (xs @ ys) = sent_audio xs @ sent_audio ys"
  by (simp add: sent_audio_def)

lemma delivered_audio_append [simp]:
  "delivered_audio (xs @ ys) = delivered_audio xs @ delivered_audio ys"
  by (simp add: delivered_audio_def)

lemma clientWs_on_message_audio:
  assumes "open_session s" and "treated_as_audio rt data"
  shows "clientWs_on_message rt e s data = forward_audio e 0 s data"
  using assms
  by (auto simp: clientWs_on_message_def open_session_def treated_as_audio_def
      split: option.splits)

lemma forward_audio_queued:
  assumes "\<not> isConfigAccepted s"
  shows "fst (forward_audio e k s data) = s\<lparr>audioQueue := audioQueue s @ [data]\<rparr>"
    and "sent_audio (snd (forward_audio e k s data)) = []"
    and "delivered_audio (snd (forward_audio e k s data)) = []"
  using assms
  by (simp_all add: forward_audio_def sendAudioChunk_def Let_def)

lemma forward_audio_live:
  assumes "isConfigAccepted s"
  shows "sent_audio (snd (forward_audio e k s data)) = [data]"
    and "audioQueue (fst (forward_audio e k s data)) = audioQueue s"
    and "isConfigAccepted (fst (forward_audio e k s data))"
    and "open_session (fst (forward_audio e k s data)) = open_session s"
    and "never_throws e \<Longrightarrow> delivered_audio (snd (forward_audio e k s data)) = [data]"
  using assms
  by (simp_all add: forward_audio_def sendAudioChunk_def open_session_def never_throws_def
      split: option.splits)

lemma run_audio_queued:
  assumes "open_session s" and "\<not> isConfigAccepted s"
    and "\<forall>d \<in> set (map snd frames). treated_as_audio rt d"
  shows "fst (run rt s (audio_events frames)) = s\<lparr>audioQueue := audioQueue s @ map snd frames\<rparr>
    \<and> sent_audio (snd (run rt s (audio_events frames))) = []
    \<and> delivered_audio (snd (run rt s (audio_events frames))) = []"
  using assms
proof (induction frames arbitrary: s)
  case Nil
  then show ?case by (simp add: audio_events_def)
next
  case (Cons f frames)
  obtain e d where f: "f = (e, d)" by (cases f)
  let ?s1 = "s\<lparr>audioQueue := audioQueue s @ [d]\<rparr>"
  have step: "clientWs_on_message rt e s d = forward_audio e 0 s d"
    using Cons.prems f by (simp add: clientWs_on_message_audio)
  have s1: "fst (forward_audio e 0 s d) = ?s1"
    using Cons.prems(2) by (rule forward_audio_queued)
  have ok1: "open_session ?s1" "\<not> isConfigAccepted ?s1"
    using Cons.prems by (simp_all add: open_session_def)
  have rest: "\<forall>d \<in> set (map snd frames). treated_as_audio rt d"
    using Cons.prems(3) by simp
  note IH = Cons.IH [OF ok1 rest]
  obtain out1 where o1: "forward_audio e 0 s d = (?s1, out1)"
    using s1 by (cases "forward_audio e 0 s d") simp
  have out1: "sent_audio out1 = []" "delivered_audio out1 = []"
    using forward_audio_queued(2,3) [OF Cons.prems(2), of e 0 d] o1 by simp_all
  show ?case
    using IH out1 by (simp add: audio_events_def f step o1 case_prod_beta)
qed

lemma run_audio_live:
  assumes "open_session s" and "isConfigAccepted s"
    and "\<forall>d \<in> set (map snd frames). treated_as_audio rt d"
  shows "sent_audio (snd (run rt s (audio_events frames))) = map snd frames
    \<and> audioQueue (fst (run rt s (audio_events frames))) = audioQueue s
    \<and> isConfigAccepted (fst (run rt s (audio_events frames)))
    \<and> ((\<forall>e \<in> set (map fst frames). never_throws e) \<longrightarrow>
         delivered_audio (snd (run rt s (audio_events frames))) = map snd frames)"
  using assms
proof (induction frames arbitrary: s)
  case Nil
  then show ?case by (simp add: audio_events_def)
next
  case (Cons f frames)
  obtain e d where f: "f = (e, d)" by (cases f)
  obtain s1 out1 where o1: "forward_audio e 0 s d = (s1, out1)"
    by (cases "forward_audio e 0 s d")
  have step: "clientWs_on_message rt e s d = (s1, out1)"
    using Cons.prems f o1 by (simp add: clientWs_on_message_audio)
  have live: "sent_audio out1 = [d]" "audioQueue s1 = audioQueue s" "isConfigAccepted s1"
      "open_session s1" "never_throws e \<Longrightarrow> delivered_audio out1 = [d]"
    using forward_audio_live [OF Cons.prems(2), of e 0 d] o1 Cons.prems(1) by simp_all
  have rest: "\<forall>d \<in> set (map snd frames). treated_as_audio rt d"
    using Cons.prems(3) by simp
  note IH = Cons.IH [OF live(4) live(3) rest]
  show ?case
    using IH live by (simp add: audio_events_def f step case_prod_beta)
qed

lemma sent_audio_flush_queue: "sent_audio (flush_queue e k queue) = queue"
  by (induction queue arbitrary: k) (simp_all split: option.splits)

lemma delivered_audio_flush_queue:
  "never_throws e \<Longrightarrow> delivered_audio (flush_queue e k queue) = queue"
  by (induction queue arbitrary: k) (simp_all add: never_throws_def)

lemma sent_audio_sendToClient: "sent_audio (snd (sendToClient e s k m)) = []"
  by (simp add: sendToClient_def split: option.splits)

lemma delivered_audio_sendToClient: "delivered_audio (snd (sendToClient e s k m)) = []"
  by (simp add: sendToClient_def split: option.splits)

lemma config_accepted_flushes:
  "fst (dispatch rt e s (StreamMessage CortiConfigAccepted)) =
     s\<lparr>isConfigAccepted := True, audioQueue := []\<rparr>"
  "sent_audio (snd (dispatch rt e s (StreamMessage CortiConfigAccepted))) = audioQueue s"
  "never_throws e \<Longrightarrow>
   delivered_audio (snd (dispatch rt e s (StreamMessage CortiConfigAccepted))) = audioQueue s"
  by (simp_all add: streamSocket_on_message_def onConfigAccepted_def sent_audio_flush_queue
      delivered_audio_flush_queue sent_audio_sendToClient delivered_audio_sendToClient)

lemma a_session_setup:
  "fst (handleAmbientConnection an_env (Inr ''interaction-1'') (Inr a_socket)) = Some a_session"
  by (simp add: handleAmbientConnection_def a_session_def Let_def)

text \<open>
  The queue and its flush, for any session whose stream is open and whose configuration is
  not yet accepted, with whatever its queue holds.
\<close>

lemma run_queue_then_flush:
  assumes "open_session s" and "\<not> isConfigAccepted s"
    and "\<forall>d \<in> set (map snd before @ map snd after). treated_as_audio rt d"
  shows "sent_audio (snd (run rt s (audio_events before))) = [] \<and>
    audioQueue (fst (run rt s (audio_events before))) = audioQueue s @ map snd before \<and>
    sent_audio (snd (run rt s
      (audio_events before @ (e, StreamMessage CortiConfigAccepted) # audio_events after)))
      = audioQueue s @ map snd before @ map snd after \<and>
    audioQueue (fst (run rt s
      (audio_events before @ (e, StreamMessage CortiConfigAccepted) # audio_events after)))
      = [] \<and>
    (never_throws e \<and> (\<forall>e' \<in> set (map fst after). never_throws e') \<longrightarrow>
      delivered_audio (snd (run rt s
        (audio_events before @ (e, StreamMessage CortiConfigAccepted) # audio_events after)))
        = audioQueue s @ map snd before @ map snd after)"
proof -
  let ?s1 = "s\<lparr>audioQueue := audioQueue s @ map snd before\<rparr>"
  let ?s2 = "?s1\<lparr>isConfigAccepted := True, audioQueue := []\<rparr>"
  have frames: "\<forall>d \<in> set (map snd before). treated_as_audio rt d"
      "\<forall>d \<in> set (map snd after). treated_as_audio rt d"
    using assms(3) by auto
  have queued: "fst (run rt s (audio_events before)) = ?s1"
      "sent_audio (snd (run rt s (audio_events before))) = []"
      "delivered_audio (snd (run rt s (audio_events before))) = []"
    using run_audio_queued [OF assms(1,2) frames(1)] by simp_all
  have accepted: "fst (dispatch rt e ?s1 (StreamMessage CortiConfigAccepted)) = ?s2"
      "sent_audio (snd (dispatch rt e ?s1 (StreamMessage CortiConfigAccepted)))
         = audioQueue s @ map snd before"
      "never_throws e \<Longrightarrow>
       delivered_audio (snd (dispatch rt e ?s1 (StreamMessage CortiConfigAccepted)))
         = audioQueue s @ map snd before"
    using config_accepted_flushes [where rt = rt and e = e and s = ?s1] by simp_all
  have ok2: "open_session ?s2" "isConfigAccepted ?s2"
    using assms(1) by (simp_all add: open_session_def)
  note live = run_audio_live [OF ok2 frames(2)]
  have full: "run rt s
      (audio_events before @ (e, StreamMessage CortiConfigAccepted) # audio_events after) =
      (fst (run rt ?s2 (audio_events after)),
       snd (run rt s (audio_events before)) @
       snd (dispatch rt e ?s1 (StreamMessage CortiConfigAccepted)) @
       snd (run rt ?s2 (audio_events after)))"
    using queued(1) accepted(1) by (simp add: run_append case_prod_beta del: dispatch.simps)
  show ?thesis
    using queued accepted(2,3) live by (simp add: full del: dispatch.simps)
qed

lemma handleAmbientConnection_success:
  "handleAmbientConnection e (Inr i) (Inr sock) =
     (Some (initial_session\<lparr>interactionId := Some i, streamSocket := Some sock\<rparr>),
      snd (handleAmbientConnection e (Inr i) (Inr sock)))"
  by (simp add: handleAmbientConnection_def Let_def)

lemma handleAmbientConnection_sends_no_audio:
  "sent_audio (snd (handleAmbientConnection e c r)) = [] \<and>
   delivered_audio (snd (handleAmbientConnection e c r)) = []"
  by (simp add: handleAmbientConnection_def Let_def sent_audio_sendToClient
      delivered_audio_sendToClient split: sum.splits)

lemma connection_success:
  "connection rt e (Inr i) (Inr sock) during_setup afterwards =
     (Some (fst (run rt (initial_session\<lparr>interactionId := Some i, streamSocket := Some sock\<rparr>)
        afterwards)),
      snd (handleAmbientConnection e (Inr i) (Inr sock)) @
      snd (run rt (initial_session\<lparr>interactionId := Some i, streamSocket := Some sock\<rparr>)
        afterwards))"
  by (subst connection_def, subst handleAmbientConnection_success) (simp add: case_prod_beta)

text \<open>
  Claim C1, as the code has it. Let the set-up of a connection succeed, and let, after the
  handlers are registered, the frames \<open>before\<close> arrive, then the provider's
  \<open>CONFIG_ACCEPTED\<close>, then the frames \<open>after\<close>, all of them frames that the handler
  treats as audio. Before the acceptance no frame is sent and the queue holds \<open>before\<close>
  in arrival order; over the whole run the frames passed to \<open>sendAudio\<close> are \<open>before\<close>
  and then \<open>after\<close>, each once and in this order, and the queue is empty at the end; when
  no call of the stream socket throws, these are also the frames that the provider
  received. Whatever the browser sent during the set-up is not among them.
\<close>

theorem audio_frames_after_setup_forwarded_in_arrival_order:
  assumes "\<forall>d \<in> set (map snd before @ map snd after). treated_as_audio rt d"
  shows "sent_audio (snd (connection rt e0 (Inr i) (Inr sock) during_setup
        (audio_events before))) = [] \<and>
    map_option audioQueue (fst (connection rt e0 (Inr i) (Inr sock) during_setup
        (audio_events before))) = Some (map snd before) \<and>
    sent_audio (snd (connection rt e0 (Inr i) (Inr sock) during_setup
        (audio_events before @ (e, StreamMessage CortiConfigAccepted) # audio_events after)))
      = map snd before @ map snd after \<and>
    map_option audioQueue (fst (connection rt e0 (Inr i) (Inr sock) during_setup
        (audio_events before @ (e, StreamMessage CortiConfigAccepted) # audio_events after)))
      = Some [] \<and>
    (never_throws e \<and> (\<forall>e' \<in> set (map fst after). never_throws e') \<longrightarrow>
      delivered_audio (snd (connection rt e0 (Inr i) (Inr sock) during_setup
        (audio_events before @ (e, StreamMessage CortiConfigAccepted) # audio_events after)))
        = map snd before @ map snd after)"
proof -
  let ?s = "initial_session\<lparr>interactionId := Some i, streamSocket := Some sock\<rparr>"
  have s: "open_session ?s" "\<not> isConfigAccepted ?s" "audioQueue ?s = []"
    by (simp_all add: open_session_def initial_session_def)
  note session = run_queue_then_flush [OF s(1,2) assms, of e]
  show ?thesis
    using session handleAmbientConnection_sends_no_audio [of e0 "Inr i" "Inr sock"]
    by (simp add: connection_success s(3))
qed

text \<open>
  Two frames before the acceptance and one after it, in a connection whose set-up
  succeeds; the second frame starts with the byte 123 and does not parse.
\<close>

theorem audio_frames_after_setup_forwarded_in_arrival_order_witness:
  "treated_as_audio a_runtime (BufferData [26, 69]) \<and>
   treated_as_audio a_runtime (BufferData [123, 7]) \<and>
   treated_as_audio a_runtime (BufferData [163]) \<and>
   never_throws an_env \<and>
   sent_audio (snd (connection a_runtime an_env (Inr ''interaction-1'') (Inr a_socket) []
     (audio_events [(an_env, BufferData [26, 69]), (an_env, BufferData [123, 7])] @
      (an_env, StreamMessage CortiConfigAccepted) #
      audio_events [(an_env, BufferData [163])])))
   = [BufferData [26, 69], BufferData [123, 7], BufferData [163]] \<and>
   delivered_audio (snd (connection a_runtime an_env (Inr ''interaction-1'') (Inr a_socket) []
     (audio_events [(an_env, BufferData [26, 69]), (an_env, BufferData [123, 7])] @
      (an_env, StreamMessage CortiConfigAccepted) #
      audio_events [(an_env, BufferData [163])])))
   = [BufferData [26, 69], BufferData [123, 7], BufferData [163]]"
proof -
  have h3: "treated_as_audio a_runtime (BufferData [26, 69])"
      "treated_as_audio a_runtime (BufferData [123, 7])"
      "treated_as_audio a_runtime (BufferData [163])"
    by (simp_all add: treated_as_audio_def isJson_def a_runtime_def)
  have h4: "\<forall>d \<in> set (map snd [(an_env, BufferData [26, 69]), (an_env, BufferData [123, 7])] @
      map snd [(an_env, BufferData [163])]). treated_as_audio a_runtime d"
    using h3 by simp
  have h5: "never_throws an_env"
    by (simp add: never_throws_def an_env_def)
  show ?thesis
    using audio_frames_after_setup_forwarded_in_arrival_order
      [OF h4, of an_env "''interaction-1''" a_socket "[]" an_env] h3 h5
    by simp
qed

text \<open>
  Claim C1 as stated fails for a frame that the browser sends while the connection is set
  up: the message handler is not yet registered, the frame is neither queued nor sent, and
  of the three frames received before and after the acceptance the provider is sent two.
\<close>

theorem frame_received_during_setup_is_dropped:
  "sent_audio (snd (connection a_runtime an_env (Inr ''interaction-1'') (Inr a_socket)
      [ClientMessage (BufferData [26, 69])]
      [(an_env, ClientMessage (BufferData [123, 7])),
       (an_env, StreamMessage CortiConfigAccepted),
       (an_env, ClientMessage (BufferData [163]))]))
    = [BufferData [123, 7], BufferData [163]] \<and>
   sent_audio (snd (connection a_runtime an_env (Inr ''interaction-1'') (Inr a_socket)
      [ClientMessage (BufferData [26, 69])]
      [(an_env, ClientMessage (BufferData [123, 7])),
       (an_env, StreamMessage CortiConfigAccepted),
       (an_env, ClientMessage (BufferData [163]))]))
    \<noteq> [BufferData [26, 69], BufferData [123, 7], BufferData [163]]"
  by (simp add: connection_success clientWs_on_message_def streamSocket_on_message_def
      onConfigAccepted_def forward_audio_def sendAudioChunk_def sendToClient_def isJson_def
      handleAmbientConnection_def a_runtime_def an_env_def a_socket_def initial_session_def
      Let_def)

lemma client_calls_simps [simp]:
  "client_calls [] = []" "client_calls (x # xs) = client_call_of x @ client_calls xs"
  "client_calls (xs @ ys) = client_calls xs @ client_calls ys"
  by (simp_all add: client_calls_def)

lemma stream_calls_simps [simp]:
  "stream_calls [] = []" "stream_calls (x # xs) = stream_call_of x @ stream_calls xs"
  "stream_calls (xs @ ys) = stream_calls xs @ stream_calls ys"
  by (simp_all add: stream_calls_def)

lemma sendToClient_stream_calls [simp]: "stream_calls (snd (sendToClient e s k m)) = []"
  by (simp add: sendToClient_def split: option.splits)

lemma sendToClient_unreachable:
  "\<not> (isClientConnected s \<and> readyState e = 1) \<Longrightarrow> snd (sendToClient e s k m) = []"
  by (auto simp: sendToClient_def)

lemma sendToClient_delivers:
  "isClientConnected s \<Longrightarrow> readyState e = 1 \<Longrightarrow> clientSend_throws e k = None \<Longrightarrow>
   snd (sendToClient e s k m) = [ClientSend m None]"
  by (simp add: sendToClient_def)

lemma relay_segments_stream_calls [simp]: "stream_calls (relay_segments rt e s k r segs) = []"
  by (induction segs arbitrary: k r) simp_all

lemma relay_segments_unreachable:
  "\<not> (isClientConnected s \<and> readyState e = 1) \<Longrightarrow>
   client_calls (relay_segments rt e s k r segs) = []"
  by (induction segs arbitrary: k r) (simp_all add: sendToClient_unreachable)

lemma logs_stream_calls [simp]: "stream_calls (map (\<lambda>f. Log (t f)) fs) = []"
  by (induction fs) simp_all

lemma logs_client_calls [simp]: "client_calls (map (\<lambda>f. Log (t f)) fs) = []"
  by (induction fs) simp_all

lemma handleCortiMessage_state:
  "message \<noteq> CortiConfigAccepted \<Longrightarrow> fst (handleCortiMessage rt e s message) = s"
  by (cases message) simp_all

lemma handleCortiMessage_stream_calls:
  "message \<noteq> CortiConfigAccepted \<Longrightarrow> stream_calls (snd (handleCortiMessage rt e s message)) = []"
  by (cases message) (simp_all split: option.splits facts_property.splits)

lemma flush_queue_client_calls [simp]: "client_calls (flush_queue e k queue) = []"
  by (induction queue arbitrary: k) (simp_all split: option.splits)

lemma handleCortiMessage_unreachable:
  assumes "\<not> (isClientConnected s \<and> readyState e = 1)"
  shows "client_calls (snd (handleCortiMessage rt e s message)) = []"
  using assms
  by (cases message)
    (simp_all add: sendToClient_unreachable relay_segments_unreachable onConfigAccepted_def
      split: option.splits facts_property.splits)

lemma sendToClient_client_calls:
  "client_calls (snd (sendToClient e s k m)) =
     (if isClientConnected s \<and> readyState e = 1 then [ClientSend m (clientSend_throws e k)] else [])"
  by (simp add: sendToClient_def split: option.splits)

lemma relay_segments_client_calls:
  "client_calls (relay_segments rt e s k r segs) =
     (if isClientConnected s \<and> readyState e = 1
      then map (\<lambda>j. ClientSend
                 (TranscriptMsg (Some (client_segment rt
                    (Math_random e
                       (r + length (filter (\<lambda>x. \<not> truthy_number (cs_time_start x)) (take j segs))))
                    (segs ! j))))
                 (clientSend_throws e (k + j)))
             [0..<length segs]
      else [])"
proof (induction segs arbitrary: k r)
  case Nil
  then show ?case by simp
next
  case (Cons seg rest)
  have upt: "[0..<length (seg # rest)] = 0 # map Suc [0..<length rest]"
    by (simp add: upt_conv_Cons map_Suc_upt del: upt_Suc)
  show ?case
    unfolding upt
    by (simp add: Cons.IH sendToClient_client_calls comp_def del: upt_Suc)
qed

lemma sendToClient_mark [simp]:
  "sendToClient e (s\<lparr>isStreamClosed := b\<rparr>) k m = sendToClient e s k m"
  by (simp add: sendToClient_def)

lemma relay_segments_mark [simp]:
  "relay_segments rt e (s\<lparr>isStreamClosed := b\<rparr>) k r segs = relay_segments rt e s k r segs"
  by (induction segs arbitrary: k r) simp_all

lemma handleCortiMessage_mark:
  "snd (handleCortiMessage rt e (s\<lparr>isStreamClosed := b\<rparr>) message) =
   snd (handleCortiMessage rt e s message)"
  by (cases message)
    (simp_all add: onConfigAccepted_def split: option.splits facts_property.splits)

lemma streamSocket_on_message_mark:
  "snd (streamSocket_on_message rt e (s\<lparr>isStreamClosed := b\<rparr>) message) =
   snd (streamSocket_on_message rt e s message)"
  using handleCortiMessage_mark [where rt = rt and e = e and s = s and b = b and message = message]
  by (simp add: streamSocket_on_message_def case_prod_beta)

lemma streamSocket_on_message_client_calls:
  "client_calls (snd (streamSocket_on_message rt e s message)) =
   client_calls (snd (handleCortiMessage rt e s message))"
  by (simp add: streamSocket_on_message_def case_prod_beta)

text \<open>
  Claim C4, as the code has it. Once the stream is marked closed, a message of the browser
  (audio or control) does nothing but write one log line: no exception, no message to the
  browser, no call of the provider, no change of the session. A message of the provider is
  not gated by the mark: the handler does for it exactly what it does in the same session
  not marked closed. Every provider message other than \<open>CONFIG_ACCEPTED\<close> leaves the
  session unchanged and calls no method of the stream socket. While the browser is
  connected and its socket open, \<open>ENDED\<close>, \<open>usage\<close>, a fact array and every segment
  of a transcript are sent to it, one \<open>send\<close> each and in order; once the browser is
  disconnected (or its socket not open) nothing is sent to it.
\<close>

theorem closed_stream_ignores_browser_messages:
  assumes "isStreamClosed s"
  shows "clientWs_on_message rt e s data = (s, [Log ''No active stream socket available'']) \<and>
    (message \<noteq> CortiConfigAccepted \<longrightarrow>
       fst (streamSocket_on_message rt e s message) = s \<and>
       stream_calls (snd (streamSocket_on_message rt e s message)) = []) \<and>
    (\<not> (isClientConnected s \<and> readyState e = 1) \<longrightarrow>
       client_calls (snd (streamSocket_on_message rt e s message)) = []) \<and>
    snd (streamSocket_on_message rt e s message) =
      snd (streamSocket_on_message rt e (s\<lparr>isStreamClosed := False\<rparr>) message) \<and>
    client_calls (snd (streamSocket_on_message rt e s CortiEnded)) =
      (if isClientConnected s \<and> readyState e = 1
       then [ClientSend EndedMsg (clientSend_throws e 0)] else []) \<and>
    client_calls (snd (streamSocket_on_message rt e s (CortiUsage c))) =
      (if isClientConnected s \<and> readyState e = 1
       then [ClientSend (UsageMsg c) (clientSend_throws e 0)] else []) \<and>
    client_calls (snd (streamSocket_on_message rt e s (CortiFacts (FactsArray fs) p q))) =
      (if isClientConnected s \<and> readyState e = 1
       then [ClientSend (FactsMsg (Some fs)) (clientSend_throws e 0)] else []) \<and>
    client_calls (snd (streamSocket_on_message rt e s (CortiTranscript (Some segs)))) =
      (if isClientConnected s \<and> readyState e = 1
       then map (\<lambda>j. ClientSend
                  (TranscriptMsg (Some (client_segment rt
                     (Math_random e
                        (length (filter (\<lambda>x. \<not> truthy_number (cs_time_start x)) (take j segs))))
                     (segs ! j))))
                  (clientSend_throws e j))
              [0..<length segs]
       else [])"
proof -
  have browser: "clientWs_on_message rt e s data = (s, [Log ''No active stream socket available''])"
    using assms by (simp add: clientWs_on_message_def split: option.splits)
  have provider: "streamSocket_on_message rt e s message =
      (fst (handleCortiMessage rt e s message),
       Log ''Corti message:'' # snd (handleCortiMessage rt e s message))"
    by (simp add: streamSocket_on_message_def case_prod_beta)
  have bounds: "(message \<noteq> CortiConfigAccepted \<longrightarrow>
       fst (streamSocket_on_message rt e s message) = s \<and>
       stream_calls (snd (streamSocket_on_message rt e s message)) = []) \<and>
    (\<not> (isClientConnected s \<and> readyState e = 1) \<longrightarrow>
       client_calls (snd (streamSocket_on_message rt e s message)) = [])"
    using handleCortiMessage_state [of message rt e s]
      handleCortiMessage_stream_calls [of message rt e s]
      handleCortiMessage_unreachable [of s e rt message]
    by (simp add: provider)
  have mark: "snd (streamSocket_on_message rt e s message) =
      snd (streamSocket_on_message rt e (s\<lparr>isStreamClosed := False\<rparr>) message)"
    by (simp add: streamSocket_on_message_mark)
  have relayed:
    "client_calls (snd (streamSocket_on_message rt e s CortiEnded)) =
      (if isClientConnected s \<and> readyState e = 1
       then [ClientSend EndedMsg (clientSend_throws e 0)] else [])"
    "client_calls (snd (streamSocket_on_message rt e s (CortiUsage c))) =
      (if isClientConnected s \<and> readyState e = 1
       then [ClientSend (UsageMsg c) (clientSend_throws e 0)] else [])"
    "client_calls (snd (streamSocket_on_message rt e s (CortiFacts (FactsArray fs) p q))) =
      (if isClientConnected s \<and> readyState e = 1
       then [ClientSend (FactsMsg (Some fs)) (clientSend_throws e 0)] else [])"
    by (simp_all add: streamSocket_on_message_client_calls sendToClient_client_calls
        factsArray_of_def)
  have transcript:
    "client_calls (snd (streamSocket_on_message rt e s (CortiTranscript (Some segs)))) =
      (if isClientConnected s \<and> readyState e = 1
       then map (\<lambda>j. ClientSend
                  (TranscriptMsg (Some (client_segment rt
                     (Math_random e
                        (length (filter (\<lambda>x. \<not> truthy_number (cs_time_start x)) (take j segs))))
                     (segs ! j))))
                  (clientSend_throws e j))
              [0..<length segs]
       else [])"
    using relay_segments_client_calls [of rt e s 0 0 segs]
    by (simp add: streamSocket_on_message_client_calls)
  show ?thesis
    using browser bounds mark relayed transcript by blast
qed

text \<open>
  Two sessions whose stream is marked closed. In the first the browser has disconnected: a
  frame and the provider's \<open>ENDED\<close> arrive and nothing is sent. In the second the
  browser has sent \<open>end\<close> and is connected: the provider's \<open>ENDED\<close> and a usage
  event are sent to it.
\<close>

theorem closed_stream_ignores_browser_messages_witness:
  \<open>isStreamClosed (fst (clientWs_on_close an_env a_session)) \<and>
   CortiEnded \<noteq> CortiConfigAccepted \<and>
   \<not> (isClientConnected (fst (clientWs_on_close an_env a_session)) \<and> readyState an_env = 1) \<and>
   clientWs_on_message a_runtime an_env (fst (clientWs_on_close an_env a_session)) (BufferData [26, 69])
     = (fst (clientWs_on_close an_env a_session), [Log ''No active stream socket available'']) \<and>
   fst (streamSocket_on_message a_runtime an_env (fst (clientWs_on_close an_env a_session)) CortiEnded)
     = fst (clientWs_on_close an_env a_session) \<and>
   client_calls (snd (streamSocket_on_message a_runtime an_env
     (fst (clientWs_on_close an_env a_session)) CortiEnded)) = [] \<and>
   isStreamClosed (fst (clientWs_on_message a_runtime an_env a_session
     (StringData ''{"type":"end"}''))) \<and>
   client_calls (snd (streamSocket_on_message a_runtime an_env
     (fst (clientWs_on_message a_runtime an_env a_session (StringData ''{"type":"end"}'')))
     CortiEnded)) = [ClientSend EndedMsg None] \<and>
   client_calls (snd (streamSocket_on_message a_runtime an_env
     (fst (clientWs_on_message a_runtime an_env a_session (StringData ''{"type":"end"}'')))
     (CortiUsage 1))) = [ClientSend (UsageMsg 1) None]\<close>
proof -
  let ?s = "fst (clientWs_on_close an_env a_session)"
  let ?t = \<open>fst (clientWs_on_message a_runtime an_env a_session (StringData ''{"type":"end"}''))\<close>
  have s: "?s = a_session\<lparr>isClientConnected := False, isStreamClosed := True\<rparr>"
    by (simp add: clientWs_on_close_def closeStream_def a_session_def a_socket_def
        initial_session_def Let_def)
  have t: "?t = a_session\<lparr>isStreamClosed := True\<rparr>"
    by (simp add: clientWs_on_message_def closeStream_def isJson_def msg_type_def
        a_runtime_def a_session_def a_socket_def initial_session_def Let_def)
  have h: "isStreamClosed ?s" "\<not> (isClientConnected ?s \<and> readyState an_env = 1)"
    by (simp_all add: s)
  have k: "isStreamClosed ?t" "isClientConnected ?t" "readyState an_env = 1"
      "clientSend_throws an_env 0 = None"
    unfolding t by (simp_all add: a_session_def initial_session_def an_env_def)
  note disconnected = closed_stream_ignores_browser_messages
      [OF h(1), where rt = a_runtime and e = an_env and data = "BufferData [26, 69]"
        and message = CortiEnded and c = 1 and fs = "[]" and p = Falsy and q = Falsy
        and segs = "[]"]
  note connected = closed_stream_ignores_browser_messages
      [OF k(1), where rt = a_runtime and e = an_env and data = "BufferData [26, 69]"
        and message = CortiEnded and c = 1 and fs = "[]" and p = Falsy and q = Falsy
        and segs = "[]"]
  have ne: "CortiEnded \<noteq> CortiConfigAccepted"
    by simp
  have first: "clientWs_on_message a_runtime an_env ?s (BufferData [26, 69])
        = (?s, [Log ''No active stream socket available''])"
      "fst (streamSocket_on_message a_runtime an_env ?s CortiEnded) = ?s"
      "client_calls (snd (streamSocket_on_message a_runtime an_env ?s CortiEnded)) = []"
    using disconnected h ne by blast+
  have second: "client_calls (snd (streamSocket_on_message a_runtime an_env ?t CortiEnded))
        = [ClientSend EndedMsg None]"
      "client_calls (snd (streamSocket_on_message a_runtime an_env ?t (CortiUsage 1)))
        = [ClientSend (UsageMsg 1) None]"
  proof -
    have "client_calls (snd (streamSocket_on_message a_runtime an_env ?t CortiEnded)) =
        (if isClientConnected ?t \<and> readyState an_env = 1
         then [ClientSend EndedMsg (clientSend_throws an_env 0)] else [])"
      using connected by blast
    then show "client_calls (snd (streamSocket_on_message a_runtime an_env ?t CortiEnded))
        = [ClientSend EndedMsg None]"
      using k by simp
    have "client_calls (snd (streamSocket_on_message a_runtime an_env ?t (CortiUsage 1))) =
        (if isClientConnected ?t \<and> readyState an_env = 1
         then [ClientSend (UsageMsg 1) (clientSend_throws an_env 0)] else [])"
      using connected by blast
    then show "client_calls (snd (streamSocket_on_message a_runtime an_env ?t (CortiUsage 1)))
        = [ClientSend (UsageMsg 1) None]"
      using k by simp
  qed
  show ?thesis
    using h k(1) first second ne by blast
qed

text \<open>
  Claim C4 as stated fails. After the browser's \<open>end\<close>, the provider's \<open>ENDED\<close> and the
  close of the provider socket the stream is marked closed, and a further provider event
  (here \<open>usage\<close>) is still sent to the connected browser. After a denied configuration the
  relay keeps no mark at all, and a frame of the browser is queued.
\<close>

theorem closed_session_still_relays_provider_events:
  \<open>isStreamClosed (fst (run a_runtime a_session
      [(an_env, ClientMessage (StringData ''{"type":"end"}'')),
       (an_env, StreamMessage CortiEnded), (an_env, StreamClosed)])) \<and>
   client_calls (snd (dispatch a_runtime an_env
      (fst (run a_runtime a_session
        [(an_env, ClientMessage (StringData ''{"type":"end"}'')),
         (an_env, StreamMessage CortiEnded), (an_env, StreamClosed)]))
      (StreamMessage (CortiUsage 1))))
     = [ClientSend (UsageMsg 1) None] \<and>
   audioQueue (fst (run a_runtime a_session
      [(an_env, StreamMessage (CortiConfigError CONFIG_DENIED None)),
       (an_env, ClientMessage (BufferData [26, 69]))]))
     = [BufferData [26, 69]]\<close>
  by (simp add: clientWs_on_message_def streamSocket_on_message_def streamSocket_on_close_def
      closeStream_def forward_audio_def sendAudioChunk_def sendToClient_def isJson_def
      msg_type_def a_runtime_def an_env_def a_session_def a_socket_def initial_session_def
      Let_def)



lemma open_session_message:
  assumes "open_session s" and "isJson data \<longrightarrow> JSON_parse rt data = None"
  shows "clientWs_on_message rt e s data = forward_audio e 0 s data"
  using assms
  by (auto simp: clientWs_on_message_def open_session_def split: option.splits)

lemma forward_audio_eq:
  "forward_audio e k s data =
     (if \<not> isConfigAccepted s
      then (s\<lparr>audioQueue := audioQueue s @ [data]\<rparr>,
            if length (audioQueue s @ [data]) mod 10 = 0
            then [Log ''Queued _ audio chunks waiting for CONFIG_ACCEPTED''] else [])
      else (case stream_throws e k of
              None \<Rightarrow>
                (s\<lparr>audioChunkCount := audioChunkCount s + 1\<rparr>, [StreamCall (sendAudio data) None])
            | Some err \<Rightarrow>
                (s, [StreamCall (sendAudio data) (Some err), LogError ''Error sending audio:''])))"
  by (simp add: forward_audio_def sendAudioChunk_def Let_def split: option.splits)

text \<open>
  Claim C8, as the code has it. In a session whose stream is open, a message that looks
  like JSON and does not parse is handled as an audio frame is: before the acceptance it is
  appended to the queue, after it it is passed to \<open>sendAudio\<close>. When \<open>sendAudio\<close> throws,
  the error is logged and the session is exactly as before (the counter is not
  incremented). In every case nothing is sent to the browser, no exception leaves the
  handler, the stream stays open and the acceptance and connection marks are unchanged.
\<close>

theorem malformed_message_is_audio_and_send_failure_is_logged:
  assumes "open_session s" and "isJson data \<longrightarrow> JSON_parse rt data = None"
  shows "clientWs_on_message rt e s data =
     (if \<not> isConfigAccepted s
      then (s\<lparr>audioQueue := audioQueue s @ [data]\<rparr>,
            if length (audioQueue s @ [data]) mod 10 = 0
            then [Log ''Queued _ audio chunks waiting for CONFIG_ACCEPTED''] else [])
      else (case stream_throws e 0 of
              None \<Rightarrow>
                (s\<lparr>audioChunkCount := audioChunkCount s + 1\<rparr>, [StreamCall (sendAudio data) None])
            | Some err \<Rightarrow>
                (s, [StreamCall (sendAudio data) (Some err), LogError ''Error sending audio:'']))) \<and>
    client_calls (snd (clientWs_on_message rt e s data)) = [] \<and>
    open_session (fst (clientWs_on_message rt e s data)) \<and>
    isConfigAccepted (fst (clientWs_on_message rt e s data)) = isConfigAccepted s \<and>
    isClientConnected (fst (clientWs_on_message rt e s data)) = isClientConnected s"
proof -
  have eq: "clientWs_on_message rt e s data = forward_audio e 0 s data"
    using assms by (rule open_session_message)
  show ?thesis
    unfolding eq using assms(1)
    by (simp add: forward_audio_eq open_session_def split: option.splits)
qed

text \<open>
  A message that starts like JSON and does not parse, in an accepted session, while
  \<open>sendAudio\<close> throws: one failed call, one error line, the session unchanged.
\<close>

theorem malformed_message_is_audio_and_send_failure_is_logged_witness:
  "open_session (a_session\<lparr>isConfigAccepted := True\<rparr>) \<and>
   isJson (StringData ''{oops'') \<and> JSON_parse a_runtime (StringData ''{oops'') = None \<and>
   clientWs_on_message a_runtime (an_env\<lparr>stream_throws := \<lambda>k. Some ''write failed''\<rparr>)
     (a_session\<lparr>isConfigAccepted := True\<rparr>) (StringData ''{oops'')
   = (a_session\<lparr>isConfigAccepted := True\<rparr>,
      [StreamCall (sendAudio (StringData ''{oops'')) (Some ''write failed''),
       LogError ''Error sending audio:''])"
proof -
  let ?s = "a_session\<lparr>isConfigAccepted := True\<rparr>"
  have h1: "open_session ?s"
    by (simp add: open_session_def a_session_def initial_session_def)
  have h2: "isJson (StringData ''{oops'')" "JSON_parse a_runtime (StringData ''{oops'') = None"
    by (simp_all add: isJson_def a_runtime_def)
  have h3: "isJson (StringData ''{oops'') \<longrightarrow> JSON_parse a_runtime (StringData ''{oops'') = None"
    using h2 by simp
  show ?thesis
    using malformed_message_is_audio_and_send_failure_is_logged
      [OF h1 h3, of "an_env\<lparr>stream_throws := \<lambda>k. Some ''write failed''\<rparr>"] h1 h2
    by simp
qed

text \<open>
  Claim C8 as stated fails for the malformed message. In the session that
  \<open>handleAmbientConnection\<close> sets up, a message that starts like JSON and does not parse
  is not logged and changes the session: it is appended to the audio queue; once the
  configuration is accepted it is passed to \<open>sendAudio\<close> and counted.
\<close>

theorem malformed_message_changes_session:
  "clientWs_on_message a_runtime an_env a_session (StringData ''{oops'')
     = (a_session\<lparr>audioQueue := [StringData ''{oops'']\<rparr>, []) \<and>
   a_session\<lparr>audioQueue := [StringData ''{oops'']\<rparr> \<noteq> a_session \<and>
   clientWs_on_message a_runtime an_env (a_session\<lparr>isConfigAccepted := True\<rparr>)
     (StringData ''{oops'')
     = (a_session\<lparr>isConfigAccepted := True, audioChunkCount := 1\<rparr>,
        [StreamCall (sendAudio (StringData ''{oops'')) None])"
proof -
  have "audioQueue (a_session\<lparr>audioQueue := [StringData ''{oops'']\<rparr>) \<noteq> audioQueue a_session"
    by (simp add: a_session_def initial_session_def)
  then have "a_session\<lparr>audioQueue := [StringData ''{oops'']\<rparr> \<noteq> a_session"
    by metis
  then show ?thesis
    by (simp add: clientWs_on_message_def forward_audio_def sendAudioChunk_def isJson_def
        a_runtime_def an_env_def a_session_def a_socket_def initial_session_def Let_def)
qed






end
